theory Spec2Isabelle
  imports Main
begin

section \<open>Data model\<close>

text \<open>
  JavaScript strings are modelled as \<^typ>\<open>string\<close>; one list element stands for one
  UTF-16 code unit, which is the unit \<^verbatim>\<open>length\<close> and \<^verbatim>\<open>substring\<close> count. A \<^verbatim>\<open>Date\<close> is
  the number of milliseconds since the epoch; only valid dates are modelled.
\<close>

type_synonym date = int

text \<open>The result of \<^verbatim>\<open>Date.prototype.toISOString\<close>: the ISO-8601 rendering of an instant.\<close>

datatype iso_string = ISOString date

definition toISOString :: "date \<Rightarrow> iso_string" where
  "toISOString d = ISOString d"

text \<open>A UI message part: only the fields \<^verbatim>\<open>type\<close> and \<^verbatim>\<open>text\<close> are read by the code.\<close>

record part =
  part_type :: string
  part_text :: string

text \<open>
  A chat message. \<^verbatim>\<open>content\<close>, \<^verbatim>\<open>parts\<close> and \<^verbatim>\<open>createdAt\<close> may be absent
  (\<^verbatim>\<open>undefined\<close>), which is \<^term>\<open>None\<close>.
\<close>

record message =
  msg_id :: string
  role :: string
  content :: "string option"
  parts :: "part list option"
  createdAt :: "date option"

section \<open>JavaScript array and string primitives\<close>

text \<open>\<^verbatim>\<open>Array.prototype.join\<close> on an array of strings.\<close>

fun join :: "string \<Rightarrow> string list \<Rightarrow> string" where
  "join sep [] = []"
| "join sep [x] = x"
| "join sep (x # y # ys) = x @ sep @ join sep (y # ys)"

text \<open>\<^verbatim>\<open>Array.prototype.findIndex\<close>: the first index whose element satisfies the predicate, or -1.\<close>

fun findIndex :: "('a \<Rightarrow> bool) \<Rightarrow> 'a list \<Rightarrow> int" where
  "findIndex P [] = - 1"
| "findIndex P (x # xs) =
     (if P x then 0
      else (let i = findIndex P xs in if i = - 1 then - 1 else i + 1))"

text \<open>\<^verbatim>\<open>xs.slice(0, n)\<close>; a negative end counts from the end of the array.\<close>

definition slice0 :: "'a list \<Rightarrow> int \<Rightarrow> 'a list" where
  "slice0 xs n = (if n < 0 then take (length xs - nat (- n)) xs else take (nat n) xs)"

text \<open>\<^verbatim>\<open>s.substring(0, n)\<close> for an integral \<^verbatim>\<open>n\<close>; a negative end is treated as 0.\<close>

definition substring0 :: "string \<Rightarrow> int \<Rightarrow> string" where
  "substring0 s n = take (nat n) s"

text \<open>\<^verbatim>\<open>xs[i]\<close>: \<^verbatim>\<open>undefined\<close> outside the array.\<close>

definition at_index :: "'a list \<Rightarrow> int \<Rightarrow> 'a option" where
  "at_index xs i = (if 0 \<le> i \<and> i < int (length xs) then Some (xs ! nat i) else None)"

section \<open>Text of a parts list\<close>

text \<open>
  \<^verbatim>\<open>getTextFromParts(parts?)\<close>:
  \<^verbatim>\<open>parts?.filter(part => part.type === 'text').map(part => part.text).join(' ') ?? ''\<close>.
\<close>

definition getTextFromParts :: "part list option \<Rightarrow> string" where
  "getTextFromParts ps =
     (case ps of
        None \<Rightarrow> ''''
      | Some xs \<Rightarrow> join '' '' (map part_text (filter (\<lambda>p. part_type p = ''text'') xs)))"

text \<open>
  The specification's wording of \<^verbatim>\<open>textOf\<close>: the bodies of the text-typed parts, in order,
  with one separator between each two neighbours.
\<close>

fun text_bodies :: "part list \<Rightarrow> string list" where
  "text_bodies [] = []"
| "text_bodies (p # ps) =
     (if part_type p = ''text'' then part_text p # text_bodies ps else text_bodies ps)"

fun separated :: "string list \<Rightarrow> string" where
  "separated [] = []"
| "separated (b # bs) = b @ concat (map (\<lambda>c. '' '' @ c) bs)"

section \<open>Section builder\<close>

record chatSection =
  section_id :: string
  userMessage :: message
  assistantMessages :: "message list"

text \<open>
  The body of the \<^verbatim>\<open>for (const message of messages)\<close> loop of the \<^verbatim>\<open>sections\<close> memo,
  threading \<^verbatim>\<open>result\<close> and \<^verbatim>\<open>currentSection\<close>. Both versions of the component have the
  same loop.
\<close>

fun sections_loop ::
  "message list \<Rightarrow> chatSection list \<Rightarrow> chatSection option \<Rightarrow> chatSection list \<times> chatSection option"
where
  "sections_loop [] result currentSection = (result, currentSection)"
| "sections_loop (m # ms) result currentSection =
     (if role m = ''user'' then
        sections_loop ms
          (case currentSection of Some c \<Rightarrow> result @ [c] | None \<Rightarrow> result)
          (Some \<lparr>section_id = msg_id m, userMessage = m, assistantMessages = []\<rparr>)
      else if currentSection \<noteq> None \<and> role m = ''assistant'' then
        sections_loop ms result
          (map_option (\<lambda>c. c\<lparr>assistantMessages := assistantMessages c @ [m]\<rparr>) currentSection)
      else sections_loop ms result currentSection)"

text \<open>After the loop: \<^verbatim>\<open>if (currentSection) result.push(currentSection)\<close>.\<close>

definition flush :: "chatSection list \<times> chatSection option \<Rightarrow> chatSection list" where
  "flush rc = (case rc of (result, currentSection) \<Rightarrow>
     (case currentSection of Some c \<Rightarrow> result @ [c] | None \<Rightarrow> result))"

definition buildSections :: "message list \<Rightarrow> chatSection list" where
  "buildSections ms = flush (sections_loop ms [] None)"

text \<open>The messages a section holds, in log order.\<close>

definition members :: "chatSection \<Rightarrow> message list" where
  "members s = userMessage s # assistantMessages s"

definition is_user :: "message \<Rightarrow> bool" where
  "is_user m = (role m = ''user'')"

definition is_assistant :: "message \<Rightarrow> bool" where
  "is_assistant m = (role m = ''assistant'')"

text \<open>
  A section is well formed when its id is that of its user message, its leader has role
  \<^verbatim>\<open>user\<close> and all its responses have role \<^verbatim>\<open>assistant\<close>.
\<close>

definition well_formed :: "chatSection \<Rightarrow> bool" where
  "well_formed s =
     (section_id s = msg_id (userMessage s) \<and> is_user (userMessage s)
      \<and> (\<forall>a \<in> set (assistantMessages s). is_assistant a))"

section \<open>Effects of the chat component\<close>

text \<open>
  What a handler does to the outside world, in the order it does it: notifications,
  diagnostics, writes of the local message log, and calls of the remote collaborators.
\<close>

datatype event =
    ToastError string
  | ConsoleError string
  | SetMessages "message list"
  | DeleteTrailingMessages string iso_string
  | Reload
  | Regenerate string

text \<open>
  The collaborators that are not part of the component. A remote call yields \<^term>\<open>None\<close>
  when its promise resolves and \<^term>\<open>Some msg\<close> when it rejects with an error whose
  \<^verbatim>\<open>message\<close> is \<^term>\<open>msg\<close>. \<^verbatim>\<open>generateUUID()\<close> and \<^verbatim>\<open>new Date()\<close> are each evaluated once
  per handler run.
\<close>

record env =
  generateUUID :: string
  newDate :: date
  deleteTrailingMessages :: "string \<Rightarrow> iso_string \<Rightarrow> string option"
  reload :: "message list \<Rightarrow> string option"
  regenerate :: "message list \<Rightarrow> string \<Rightarrow> string option"

text \<open>
  The state a handler acts on: the local message log held by \<^verbatim>\<open>useChat\<close> and the effects
  issued so far. Changes that the transport itself makes to the log while a request is
  running are outside the handlers and are not modelled.
\<close>

record chat =
  messages :: "message list"
  trace :: "event list"

definition emit :: "event \<Rightarrow> chat \<Rightarrow> chat" where
  "emit e st = st\<lparr>trace := trace st @ [e]\<rparr>"

text \<open>\<^verbatim>\<open>setMessages(prevMessages => ...)\<close>: the updater is applied to the current log.\<close>

definition setMessages :: "(message list \<Rightarrow> message list) \<Rightarrow> chat \<Rightarrow> chat" where
  "setMessages f st =
     (let new = f (messages st) in st\<lparr>messages := new, trace := trace st @ [SetMessages new]\<rparr>)"

text \<open>\<^verbatim>\<open>createdAt?.toISOString() ?? new Date(0).toISOString()\<close>.\<close>

definition timestampOrEpoch :: "message \<Rightarrow> iso_string" where
  "timestampOrEpoch m = (case createdAt m of Some d \<Rightarrow> toISOString d | None \<Rightarrow> toISOString 0)"

text \<open>\<^verbatim>\<open>a || b\<close> on possibly absent strings: the empty string and \<^verbatim>\<open>undefined\<close> are falsy.\<close>

definition js_or :: "string option \<Rightarrow> string option \<Rightarrow> string option" where
  "js_or a b = (case a of Some s \<Rightarrow> if s = [] then b else Some s | None \<Rightarrow> b)"

section \<open>Reconciliation, manual replay strategy\<close>

text \<open>The updater passed to \<^verbatim>\<open>setMessages\<close> by \<^verbatim>\<open>handleUpdateAndReloadMessage\<close>.\<close>

definition editUpdater_manual :: "env \<Rightarrow> string \<Rightarrow> string \<Rightarrow> message list \<Rightarrow> message list" where
  "editUpdater_manual e editedMessageId newContentText prevMessages =
     (let messageIndex = findIndex (\<lambda>m. msg_id m = editedMessageId) prevMessages;
          messagesBeforeEdited =
            (if messageIndex \<noteq> - 1 then slice0 prevMessages messageIndex else prevMessages);
          newUIMessage =
            \<lparr>msg_id = generateUUID e, role = ''user'', content = Some newContentText,
             parts = Some [\<lparr>part_type = ''text'', part_text = newContentText\<rparr>],
             createdAt = Some (newDate e)\<rparr>
      in messagesBeforeEdited @ [newUIMessage])"

text \<open>The \<^verbatim>\<open>catch\<close> block of \<^verbatim>\<open>handleUpdateAndReloadMessage\<close> (the same in both versions).\<close>

definition catch_edit :: "string \<Rightarrow> chat \<Rightarrow> chat" where
  "catch_edit err st =
     emit (ToastError (''Error processing edited message: '' @ err))
       (emit (ConsoleError ''Error during message edit and reload process:'') st)"

text \<open>
  \<^verbatim>\<open>handleUpdateAndReloadMessage(editedMessageId, newContentText)\<close> of the first version.
  \<^term>\<open>cid\<close> is the \<^verbatim>\<open>id\<close> prop and \<^term>\<open>msgs\<close> the \<^verbatim>\<open>messages\<close> value the handler closes over.
\<close>

definition handleUpdateAndReloadMessage_manual ::
  "env \<Rightarrow> string \<Rightarrow> message list \<Rightarrow> string \<Rightarrow> string \<Rightarrow> chat \<Rightarrow> chat"
where
  "handleUpdateAndReloadMessage_manual e cid msgs editedMessageId newContentText st =
     (if cid = [] then
        emit (ConsoleError ''handleUpdateAndReloadMessage: chatId (id prop) is undefined.'')
          (emit (ToastError ''Chat ID is missing.'') st)
      else
        (case find (\<lambda>m. msg_id m = editedMessageId) msgs of
           None \<Rightarrow>
             emit (ConsoleError ''handleUpdateAndReloadMessage: Pivot message not found for timestamp.'')
               (emit (ToastError ''Original message not found to edit locally.'') st)
         | Some pivotMessage \<Rightarrow>
             (let pivotTimestamp = timestampOrEpoch pivotMessage;
                  st1 = setMessages (editUpdater_manual e editedMessageId newContentText) st;
                  st2 = emit (DeleteTrailingMessages cid pivotTimestamp) st1
              in (case deleteTrailingMessages e cid pivotTimestamp of
                    Some err \<Rightarrow> catch_edit err st2
                  | None \<Rightarrow>
                      (let st3 = emit Reload st2
                       in (case reload e (messages st3) of
                             Some err \<Rightarrow> catch_edit err st3
                           | None \<Rightarrow> st3))))))"

text \<open>
  The text that \<^verbatim>\<open>handleReloadFrom\<close> resends:
  \<^verbatim>\<open>parts?.filter(p => p.type === 'text').map(p => p.text).join('') || content || ''\<close>.
\<close>

definition contentToResend :: "message \<Rightarrow> string" where
  "contentToResend targetUserMessage =
     (let fromParts =
            map_option (\<lambda>ps. join [] (map part_text (filter (\<lambda>p. part_type p = ''text'') ps)))
              (parts targetUserMessage)
      in (case js_or (js_or fromParts (content targetUserMessage)) (Some []) of
            Some s \<Rightarrow> s
          | None \<Rightarrow> []))"

definition reloadUpdater_manual :: "env \<Rightarrow> int \<Rightarrow> string \<Rightarrow> message list \<Rightarrow> message list" where
  "reloadUpdater_manual e targetUserMessageIndex resent prevMessages =
     (let messagesBeforeTarget = slice0 prevMessages targetUserMessageIndex;
          newResentUserMessage =
            \<lparr>msg_id = generateUUID e, role = ''user'', content = Some resent,
             parts = Some [\<lparr>part_type = ''text'', part_text = resent\<rparr>],
             createdAt = Some (newDate e)\<rparr>
      in messagesBeforeTarget @ [newResentUserMessage])"

definition catch_reload :: "string \<Rightarrow> string \<Rightarrow> chat \<Rightarrow> chat" where
  "catch_reload logged err st =
     emit (ToastError (''Failed to reload conversation: '' @ err)) (emit (ConsoleError logged) st)"

text \<open>
  \<^verbatim>\<open>handleReloadFrom(reloadFromFollowerMessageId)\<close> of the first version. The two array reads
  \<^verbatim>\<open>messages[i]\<close> are in range, because \<^verbatim>\<open>followerMessageIndex\<close> comes from \<^verbatim>\<open>findIndex\<close> on
  the same array and is at least 1 there.
\<close>

definition handleReloadFrom_manual :: "env \<Rightarrow> string \<Rightarrow> message list \<Rightarrow> string \<Rightarrow> chat \<Rightarrow> chat" where
  "handleReloadFrom_manual e cid msgs reloadFromFollowerMessageId st =
     (if cid = [] then emit (ToastError ''Chat ID is missing for reload.'') st
      else
        (let followerMessageIndex = findIndex (\<lambda>m. msg_id m = reloadFromFollowerMessageId) msgs
         in if followerMessageIndex < 1 then
              emit (ConsoleError (''handleReloadFrom: No message found before id ''
                      @ reloadFromFollowerMessageId @ '' or it is the first message.''))
                (emit (ToastError
                   ''Cannot reload: No preceding message found or message is the first.'') st)
            else
              (let targetUserMessageIndex = followerMessageIndex - 1;
                   targetUserMessage = msgs ! nat targetUserMessageIndex
               in if role targetUserMessage \<noteq> ''user'' then
                    emit (ConsoleError (''handleReloadFrom: Preceding message (id: ''
                            @ msg_id targetUserMessage @ '') is not a user message.''))
                      (emit (ToastError
                         ''Cannot reload: The message to resend must be a user message.'') st)
                  else
                    (let followerMessage = msgs ! nat followerMessageIndex;
                         deletionTimestamp = timestampOrEpoch followerMessage;
                         resent = contentToResend targetUserMessage;
                         logged = ''Error during reload from message preceding ''
                                    @ reloadFromFollowerMessageId @ '':'';
                         st1 = setMessages (reloadUpdater_manual e targetUserMessageIndex resent) st;
                         st2 = emit (DeleteTrailingMessages cid deletionTimestamp) st1
                     in (case deleteTrailingMessages e cid deletionTimestamp of
                           Some err \<Rightarrow> catch_reload logged err st2
                         | None \<Rightarrow>
                             (let st3 = emit Reload st2
                              in (case reload e (messages st3) of
                                    Some err \<Rightarrow> catch_reload logged err st3
                                  | None \<Rightarrow> st3)))))))"

section \<open>Reconciliation, server-delegated strategy\<close>

text \<open>The updater passed to \<^verbatim>\<open>setMessages\<close> by the second version of the edit handler.\<close>

definition editUpdater_delegated :: "string \<Rightarrow> string \<Rightarrow> message list \<Rightarrow> message list" where
  "editUpdater_delegated editedMessageId newContentText prevMessages =
     (let messageIndex = findIndex (\<lambda>m. msg_id m = editedMessageId) prevMessages
      in if messageIndex = - 1 then prevMessages
         else prevMessages
                [nat messageIndex :=
                   (prevMessages ! nat messageIndex)
                     \<lparr>parts := Some [\<lparr>part_type = ''text'', part_text = newContentText\<rparr>]\<rparr>])"

definition handleUpdateAndReloadMessage_delegated ::
  "env \<Rightarrow> string \<Rightarrow> string \<Rightarrow> string \<Rightarrow> chat \<Rightarrow> chat"
where
  "handleUpdateAndReloadMessage_delegated e cid editedMessageId newContentText st =
     (if cid = [] then
        emit (ConsoleError ''handleUpdateAndReloadMessage: chatId (id prop) is undefined.'')
          (emit (ToastError ''Chat ID is missing.'') st)
      else
        (let st1 = setMessages (editUpdater_delegated editedMessageId newContentText) st;
             st2 = emit (Regenerate editedMessageId) st1
         in (case regenerate e (messages st2) editedMessageId of
               Some err \<Rightarrow> catch_edit err st2
             | None \<Rightarrow> st2)))"

definition handleReloadFrom_delegated :: "env \<Rightarrow> string \<Rightarrow> string \<Rightarrow> chat \<Rightarrow> chat" where
  "handleReloadFrom_delegated e cid reloadFromFollowerMessageId st =
     (if cid = [] then emit (ToastError ''Chat ID is missing for reload.'') st
      else
        (let st1 = emit (Regenerate reloadFromFollowerMessageId) st
         in (case regenerate e (messages st1) reloadFromFollowerMessageId of
               Some err \<Rightarrow>
                 catch_reload
                   (''Error during reload from message '' @ reloadFromFollowerMessageId @ '':'')
                   err st1
             | None \<Rightarrow> st1)))"

text \<open>Classification of effects.\<close>

fun is_notification :: "event \<Rightarrow> bool" where
  "is_notification (ToastError _) = True"
| "is_notification _ = False"

fun is_local_write :: "event \<Rightarrow> bool" where
  "is_local_write (SetMessages _) = True"
| "is_local_write _ = False"

fun is_truncation :: "event \<Rightarrow> bool" where
  "is_truncation (DeleteTrailingMessages _ _) = True"
| "is_truncation _ = False"

fun is_transport :: "event \<Rightarrow> bool" where
  "is_transport Reload = True"
| "is_transport (Regenerate _) = True"
| "is_transport _ = False"

text \<open>
  \<^term>\<open>preceded P Q es\<close>: every event of \<^term>\<open>es\<close> that satisfies \<^term>\<open>Q\<close> comes after an
  event that satisfies \<^term>\<open>P\<close>.
\<close>

fun preceded :: "(event \<Rightarrow> bool) \<Rightarrow> (event \<Rightarrow> bool) \<Rightarrow> event list \<Rightarrow> bool" where
  "preceded P Q [] = True"
| "preceded P Q (x # xs) = (if P x then True else \<not> Q x \<and> preceded P Q xs)"

section \<open>Events of one handler run\<close>

text \<open>The events that a run from \<^term>\<open>st\<close> to \<^term>\<open>st'\<close> adds to the trace.\<close>

definition issued :: "chat \<Rightarrow> chat \<Rightarrow> event list" where
  "issued st st' = drop (length (trace st)) (trace st')"

text \<open>
  The events of the \<^verbatim>\<open>try\<close> block of the first version's edit handler after the local write:
  the truncation call, then either the \<^verbatim>\<open>catch\<close> block's two reports, or the reload call
  followed by the reports when that fails. \<^term>\<open>new\<close> is the log at that point.
\<close>

definition remote_steps_edit :: "env \<Rightarrow> string \<Rightarrow> iso_string \<Rightarrow> message list \<Rightarrow> event list" where
  "remote_steps_edit e cid ts new =
     DeleteTrailingMessages cid ts #
     (case deleteTrailingMessages e cid ts of
        Some err \<Rightarrow>
          [ConsoleError ''Error during message edit and reload process:'',
           ToastError (''Error processing edited message: '' @ err)]
      | None \<Rightarrow>
          Reload #
          (case reload e new of
             Some err \<Rightarrow>
               [ConsoleError ''Error during message edit and reload process:'',
                ToastError (''Error processing edited message: '' @ err)]
           | None \<Rightarrow> []))"

text \<open>The same for the first version's \<^verbatim>\<open>handleReloadFrom\<close>, whose reports name the follower id.\<close>

definition remote_steps_reload ::
  "env \<Rightarrow> string \<Rightarrow> iso_string \<Rightarrow> message list \<Rightarrow> string \<Rightarrow> event list" where
  "remote_steps_reload e cid ts new k =
     DeleteTrailingMessages cid ts #
     (case deleteTrailingMessages e cid ts of
        Some err \<Rightarrow>
          [ConsoleError (''Error during reload from message preceding '' @ k @ '':''),
           ToastError (''Failed to reload conversation: '' @ err)]
      | None \<Rightarrow>
          Reload #
          (case reload e new of
             Some err \<Rightarrow>
               [ConsoleError (''Error during reload from message preceding '' @ k @ '':''),
                ToastError (''Failed to reload conversation: '' @ err)]
           | None \<Rightarrow> []))"

text \<open>
  A run aborted on a structural error: the log is as before, the earlier trace is kept,
  exactly one notification was raised, and neither a local write nor a truncation nor a
  transport call was issued.
\<close>

definition aborted :: "chat \<Rightarrow> chat \<Rightarrow> bool" where
  "aborted st st' =
     (messages st' = messages st
      \<and> take (length (trace st)) (trace st') = trace st
      \<and> length (filter is_notification (issued st st')) = 1
      \<and> \<not> list_ex is_local_write (issued st st')
      \<and> \<not> list_ex is_truncation (issued st st')
      \<and> \<not> list_ex is_transport (issued st st'))"

section \<open>Outbound transport request\<close>

record request_body =
  body_trigger :: string
  body_chatId :: string
  body_messageId :: "string option"
  body_message :: "message option"

text \<open>
  \<^verbatim>\<open>prepareSendMessagesRequest({ messages, trigger, messageId })\<close>; \<^term>\<open>cid\<close> is the \<^verbatim>\<open>id\<close> prop.
  \<^verbatim>\<open>messageId\<close> may be \<^verbatim>\<open>undefined\<close>. The \<^verbatim>\<open>default\<close> label shares the body of
  \<^verbatim>\<open>'submit-user-message'\<close>.
\<close>

definition prepareSendMessagesRequest ::
  "string \<Rightarrow> message list \<Rightarrow> string \<Rightarrow> string option \<Rightarrow> request_body"
where
  "prepareSendMessagesRequest cid msgs trigger messageId =
     (if trigger = ''regenerate-assistant-message'' then
        (let messageToRegenerate = find (\<lambda>m. Some (msg_id m) = messageId) msgs
         in \<lparr>body_trigger = ''regenerate-assistant-message'',
             body_chatId = cid,
             body_messageId = messageId,
             body_message =
               (case messageToRegenerate of
                  Some m \<Rightarrow> if role m = ''user'' then Some m else None
                | None \<Rightarrow> None)\<rparr>)
      else
        \<lparr>body_trigger = ''submit-user-message'',
         body_chatId = cid,
         body_messageId = messageId,
         body_message = at_index msgs (int (length msgs) - 1)\<rparr>)"

section \<open>Conversion for the database\<close>

text \<open>
  A content part as the file's own \<^verbatim>\<open>CoreMessage\<close> interface declares it:
  \<^verbatim>\<open>{ type: string; text: string }\<close>.
\<close>

record content_part =
  cpart_type :: string
  cpart_text :: string

text \<open>
  The \<^verbatim>\<open>content\<close> of an SDK message: \<^verbatim>\<open>null\<close>, \<^verbatim>\<open>undefined\<close>, a string, an array of
  parts, or any other value (which the declared types exclude but the code provides for).
\<close>

datatype 'a msg_content =
    CNull
  | CUndefined
  | CString string
  | CArray "content_part list"
  | COther 'a

record 'a core_message =
  cm_role :: string
  cm_content :: "'a msg_content"

record db_part =
  db_text :: string

record db_message_input =
  db_role :: string
  db_parts :: "db_part list"

text \<open>
  \<^verbatim>\<open>convertMessageForDB(message)\<close>. \<^verbatim>\<open>JSON.stringify\<close> belongs to the language runtime and is
  the parameter \<^term>\<open>stringify\<close>.
\<close>

definition convertMessageForDB ::
  "('a msg_content \<Rightarrow> string) \<Rightarrow> 'a core_message \<Rightarrow> db_message_input"
where
  "convertMessageForDB stringify message =
     (let ps =
        (case cm_content message of
           CNull \<Rightarrow> []
         | CUndefined \<Rightarrow> []
         | CString s \<Rightarrow> [\<lparr>db_text = s\<rparr>]
         | CArray arr \<Rightarrow>
             (let textParts =
                    map (\<lambda>p. \<lparr>db_text = cpart_text p\<rparr>)
                      (filter (\<lambda>p. cpart_type p = ''text'') arr)
              in if length textParts > 0 then textParts
                 else [\<lparr>db_text = stringify (cm_content message)\<rparr>])
         | COther x \<Rightarrow> [\<lparr>db_text = stringify (cm_content message)\<rparr>])
      in \<lparr>db_role = cm_role message, db_parts = ps\<rparr>)"

text \<open>
  \<^verbatim>\<open>extractTitleFromMessage(message, maxLength = 100)\<close>. \<^verbatim>\<open>!message.content\<close> holds for
  \<^verbatim>\<open>null\<close>, \<^verbatim>\<open>undefined\<close> and the empty string. A value that is neither a string nor an array
  reaches the final \<^verbatim>\<open>return 'New Chat'\<close> whether it is falsy or not.
\<close>

definition extractTitleFromMessage :: "'a core_message \<Rightarrow> int \<Rightarrow> string" where
  "extractTitleFromMessage message maxLength =
     (case cm_content message of
        CNull \<Rightarrow> ''New Chat''
      | CUndefined \<Rightarrow> ''New Chat''
      | CString s \<Rightarrow> if s = [] then ''New Chat'' else substring0 s maxLength
      | CArray arr \<Rightarrow>
          (case find (\<lambda>p. cpart_type p = ''text'') arr of
             Some textPart \<Rightarrow> substring0 (cpart_text textPart) maxLength
           | None \<Rightarrow> ''New Chat'')
      | COther x \<Rightarrow> ''New Chat'')"

definition extractTitleFromMessage_default :: "'a core_message \<Rightarrow> string" where
  "extractTitleFromMessage_default message = extractTitleFromMessage message 100"

text \<open>\<^verbatim>\<open>part.type === 'text'\<close> on a content part.\<close>

definition is_text_part :: "content_part \<Rightarrow> bool" where
  "is_text_part p = (cpart_type p = ''text'')"

section \<open>Persisted parts\<close>

text \<open>
  A row of the \<^verbatim>\<open>parts\<close> table: the columns that the table's check constraints read.
  \<^verbatim>\<open>type\<close> is declared \<^verbatim>\<open>notNull\<close>; a nullable column holding \<^verbatim>\<open>NULL\<close> is \<^term>\<open>None\<close>. The
  remaining columns are the record's extension.
\<close>

record parts_row =
  row_type :: string
  text_text :: "string option"
  reasoning_text :: "string option"
  file_mediaType :: "string option"
  file_filename :: "string option"
  file_url :: "string option"
  tool_toolCallId :: "string option"
  tool_state :: "string option"

text \<open>\<^verbatim>\<open>type LIKE 'tool-%'\<close>: the value starts with \<^verbatim>\<open>tool-\<close>.\<close>

definition like_tool :: "string \<Rightarrow> bool" where
  "like_tool t = (take 5 t = ''tool-'')"

definition textTextRequired :: "'a parts_row_scheme \<Rightarrow> bool" where
  "textTextRequired r = (row_type r \<noteq> ''text'' \<or> text_text r \<noteq> None)"

definition reasoningTextRequired :: "'a parts_row_scheme \<Rightarrow> bool" where
  "reasoningTextRequired r = (row_type r \<noteq> ''reasoning'' \<or> reasoning_text r \<noteq> None)"

definition fileFieldsRequired :: "'a parts_row_scheme \<Rightarrow> bool" where
  "fileFieldsRequired r =
     (row_type r \<noteq> ''file''
      \<or> (file_mediaType r \<noteq> None \<and> file_filename r \<noteq> None \<and> file_url r \<noteq> None))"

definition toolStateValid :: "'a parts_row_scheme \<Rightarrow> bool" where
  "toolStateValid r =
     (case tool_state r of
        None \<Rightarrow> True
      | Some s \<Rightarrow>
          s \<in> set [''input-streaming'', ''input-available'', ''output-available'', ''output-error''])"

definition toolFieldsRequired :: "'a parts_row_scheme \<Rightarrow> bool" where
  "toolFieldsRequired r =
     (\<not> like_tool (row_type r) \<or> (tool_toolCallId r \<noteq> None \<and> tool_state r \<noteq> None))"

text \<open>The names of the check constraints that a row violates; the table accepts a row that violates none.\<close>

definition violated_checks :: "'a parts_row_scheme \<Rightarrow> string list" where
  "violated_checks r =
     (if textTextRequired r then [] else [''text_text_required''])
     @ (if reasoningTextRequired r then [] else [''reasoning_text_required''])
     @ (if fileFieldsRequired r then [] else [''file_fields_required''])
     @ (if toolStateValid r then [] else [''tool_state_valid''])
     @ (if toolFieldsRequired r then [] else [''tool_fields_required''])"

definition accepted :: "'a parts_row_scheme \<Rightarrow> bool" where
  "accepted r = (violated_checks r = [])"

text \<open>
  The specification's per-type invariant of a persisted part: the mandatory fields of the
  row's type are present, and a tool row's state is one of the four lifecycle values.
\<close>

definition mandatory_fields_present :: "'a parts_row_scheme \<Rightarrow> bool" where
  "mandatory_fields_present r =
     ((row_type r = ''text'' \<longrightarrow> text_text r \<noteq> None)
      \<and> (row_type r = ''reasoning'' \<longrightarrow> reasoning_text r \<noteq> None)
      \<and> (row_type r = ''file'' \<longrightarrow>
            file_mediaType r \<noteq> None \<and> file_filename r \<noteq> None \<and> file_url r \<noteq> None)
      \<and> (like_tool (row_type r) \<longrightarrow>
            tool_toolCallId r \<noteq> None
            \<and> (\<exists>s. tool_state r = Some s
                   \<and> (s = ''input-streaming'' \<or> s = ''input-available''
                        \<or> s = ''output-available'' \<or> s = ''output-error''))))"

section \<open>Example data\<close>

text \<open>A message with the given id and role and no other field set.\<close>

definition mk_message :: "string \<Rightarrow> string \<Rightarrow> message" where
  "mk_message i r = \<lparr>msg_id = i, role = r, content = None, parts = None, createdAt = None\<rparr>"

text \<open>A row of the given type with every nullable column \<^verbatim>\<open>NULL\<close>.\<close>

definition empty_row :: "string \<Rightarrow> parts_row" where
  "empty_row t =
     \<lparr>row_type = t, text_text = None, reasoning_text = None, file_mediaType = None,
      file_filename = None, file_url = None, tool_toolCallId = None, tool_state = None\<rparr>"

text \<open>An assistant content array with two text parts around a tool call.\<close>

definition example_array :: "content_part list" where
  "example_array =
     [\<lparr>cpart_type = ''text'', cpart_text = ''Searching''\<rparr>,
      \<lparr>cpart_type = ''tool-call'', cpart_text = ''''\<rparr>,
      \<lparr>cpart_type = ''text'', cpart_text = ''Done''\<rparr>]"

text \<open>
  A four-message conversation with creation times, a collaborator set whose remote calls all
  resolve, and one whose store truncation is rejected.
\<close>

definition stamped :: "string \<Rightarrow> string \<Rightarrow> date \<Rightarrow> message" where
  "stamped i r d = (mk_message i r)\<lparr>createdAt := Some d\<rparr>"

definition example_log :: "message list" where
  "example_log =
     [stamped ''u1'' ''user'' 10, stamped ''a1'' ''assistant'' 20,
      stamped ''u2'' ''user'' 30, stamped ''a2'' ''assistant'' 40]"

definition quiet_env :: env where
  "quiet_env =
     \<lparr>generateUUID = ''fresh'', newDate = 50,
      deleteTrailingMessages = (\<lambda>c t. None), reload = (\<lambda>ms. None),
      regenerate = (\<lambda>ms k. None)\<rparr>"

definition failing_env :: env where
  "failing_env = quiet_env\<lparr>deleteTrailingMessages := (\<lambda>c t. Some ''store unreachable'')\<rparr>"

section \<open>Properties\<close>

subsection \<open>Primitives\<close>

lemma join_separated: "join '' '' bs = separated bs"
proof (induction "'' ''" bs rule: join.induct)
  case 1
  show ?case by simp
next
  case (2 x)
  show ?case by simp
next
  case (3 x y ys)
  then show ?case by simp
qed

lemma text_bodies_filter:
  "text_bodies ps = map part_text (filter (\<lambda>p. part_type p = ''text'') ps)"
  by (induction ps) simp_all

subsection \<open>Text of a parts list\<close>

text \<open>
  Claim C5. \<^verbatim>\<open>getTextFromParts\<close> is defined on every argument: it yields the empty string for
  an absent list, for the empty list and for a list without a text-typed part, and in
  general the bodies of the text-typed parts in their original order with exactly one
  separator (a space) between neighbours. Order preservation: the text bodies of a
  concatenation are those of the first list followed by those of the second.
\<close>

theorem getTextFromParts_total_ordered:
  "getTextFromParts None = []
   \<and> getTextFromParts (Some []) = []
   \<and> ((\<forall>p \<in> set ps. part_type p \<noteq> ''text'') \<longrightarrow> getTextFromParts (Some ps) = [])
   \<and> getTextFromParts (Some ps) = separated (text_bodies ps)
   \<and> text_bodies (ps @ qs) = text_bodies ps @ text_bodies qs"
proof -
  have none: "getTextFromParts None = []"
    by (simp add: getTextFromParts_def)
  have nil: "getTextFromParts (Some []) = []"
    by (simp add: getTextFromParts_def)
  have spec: "getTextFromParts (Some ps) = separated (text_bodies ps)"
    by (simp add: getTextFromParts_def join_separated text_bodies_filter)
  have notext: "(\<forall>p \<in> set ps. part_type p \<noteq> ''text'') \<longrightarrow> getTextFromParts (Some ps) = []"
  proof
    assume "\<forall>p \<in> set ps. part_type p \<noteq> ''text''"
    then have "filter (\<lambda>p. part_type p = ''text'') ps = []"
      by (simp add: filter_empty_conv)
    then show "getTextFromParts (Some ps) = []"
      by (simp add: getTextFromParts_def)
  qed
  have app: "text_bodies (ps @ qs) = text_bodies ps @ text_bodies qs"
    by (simp add: text_bodies_filter)
  from none nil notext spec app show ?thesis by blast
qed

theorem getTextFromParts_total_ordered_witness:
  "part_type \<lparr>part_type = ''reasoning'', part_text = ''r''\<rparr> \<noteq> ''text''
   \<and> getTextFromParts (Some [\<lparr>part_type = ''reasoning'', part_text = ''r''\<rparr>]) = []"
  using getTextFromParts_total_ordered
          [of "[\<lparr>part_type = ''reasoning'', part_text = ''r''\<rparr>]" "[]"]
  by simp

subsection \<open>Section builder\<close>

lemma sections_loop_append:
  "sections_loop (xs @ ys) result cur =
     (case sections_loop xs result cur of (r, c) \<Rightarrow> sections_loop ys r c)"
  by (induction xs arbitrary: result cur) simp_all

lemma sections_loop_result:
  "sections_loop ms (pre @ result) cur =
     (case sections_loop ms result cur of (r, c) \<Rightarrow> (pre @ r, c))"
  by (induction ms arbitrary: result cur) (simp_all split: option.splits)

lemma sections_loop_no_user_closed:
  "\<forall>m \<in> set ms. role m \<noteq> ''user'' \<Longrightarrow> sections_loop ms result None = (result, None)"
  by (induction ms) simp_all

lemma sections_loop_no_user_open:
  "\<forall>m \<in> set ms. role m \<noteq> ''user'' \<Longrightarrow>
   sections_loop ms result (Some c) =
     (result, Some (c\<lparr>assistantMessages := assistantMessages c @ filter is_assistant ms\<rparr>))"
  by (induction ms arbitrary: c) (simp_all add: is_assistant_def)

lemma sections_loop_well_formed:
  "\<forall>s \<in> set (flush (result, cur)). well_formed s \<Longrightarrow>
   \<forall>s \<in> set (flush (sections_loop ms result cur)). well_formed s"
proof (induction ms arbitrary: result cur)
  case Nil
  then show ?case by simp
next
  case (Cons m ms)
  show ?case
  proof (cases "role m = ''user''")
    case True
    have "\<forall>s \<in> set (flush ((case cur of Some c \<Rightarrow> result @ [c] | None \<Rightarrow> result),
            Some \<lparr>section_id = msg_id m, userMessage = m, assistantMessages = []\<rparr>)). well_formed s"
      using Cons.prems True
      by (auto simp: flush_def well_formed_def is_user_def split: option.splits)
    from Cons.IH[OF this] True show ?thesis by simp
  next
    case False
    show ?thesis
    proof (cases "cur \<noteq> None \<and> role m = ''assistant''")
      case True
      then obtain c where c: "cur = Some c" by auto
      have "\<forall>s \<in> set (flush (result,
              Some (c\<lparr>assistantMessages := assistantMessages c @ [m]\<rparr>))). well_formed s"
        using Cons.prems True c
        by (auto simp: flush_def well_formed_def is_assistant_def)
      from Cons.IH[OF this] False True c show ?thesis by simp
    next
      case F2: False
      from Cons.IH[OF Cons.prems] False F2 show ?thesis by auto
    qed
  qed
qed

lemma sections_loop_members:
  "concat (map members (flush (sections_loop ms result cur))) =
     concat (map members (flush (result, cur)))
     @ (if cur = None
        then filter (\<lambda>m. is_user m \<or> is_assistant m) (dropWhile (\<lambda>m. \<not> is_user m) ms)
        else filter (\<lambda>m. is_user m \<or> is_assistant m) ms)"
proof (induction ms arbitrary: result cur)
  case Nil
  then show ?case by simp
next
  case (Cons m ms)
  let ?keep = "\<lambda>m. is_user m \<or> is_assistant m"
  show ?case
  proof (cases "role m = ''user''")
    case True
    let ?new = "\<lparr>section_id = msg_id m, userMessage = m, assistantMessages = []\<rparr>"
    have step: "sections_loop (m # ms) result cur =
                  sections_loop ms (flush (result, cur)) (Some ?new)"
      using True by (simp add: flush_def)
    have "concat (map members (flush (sections_loop (m # ms) result cur))) =
            concat (map members (flush (flush (result, cur), Some ?new))) @ filter ?keep ms"
      unfolding step using Cons.IH[of "flush (result, cur)" "Some ?new"] by simp
    also have "flush (flush (result, cur), Some ?new) = flush (result, cur) @ [?new]"
      by (simp add: flush_def)
    finally show ?thesis
      using True by (simp add: members_def is_user_def)
  next
    case False
    show ?thesis
    proof (cases cur)
      case None
      have step: "sections_loop (m # ms) result cur = sections_loop ms result None"
        using False None by simp
      show ?thesis
        unfolding step using Cons.IH[of result None] False None by (simp add: is_user_def)
    next
      case (Some c)
      show ?thesis
      proof (cases "role m = ''assistant''")
        case True
        let ?c = "c\<lparr>assistantMessages := assistantMessages c @ [m]\<rparr>"
        have step: "sections_loop (m # ms) result cur = sections_loop ms result (Some ?c)"
          using False Some True by simp
        have "concat (map members (flush (sections_loop (m # ms) result cur))) =
                concat (map members (flush (result, Some ?c))) @ filter ?keep ms"
          unfolding step using Cons.IH[of result "Some ?c"] by simp
        also have "concat (map members (flush (result, Some ?c))) =
                     concat (map members (flush (result, cur))) @ [m]"
          using Some by (simp add: flush_def members_def)
        finally show ?thesis
          using True Some by (simp add: is_assistant_def)
      next
        case F2: False
        have step: "sections_loop (m # ms) result cur = sections_loop ms result cur"
          using False Some F2 by simp
        show ?thesis
          unfolding step using Cons.IH[of result cur] False F2 Some
          by (simp add: is_user_def is_assistant_def)
      qed
    qed
  qed
qed

lemma buildSections_snoc_run:
  assumes "is_user u" and "\<forall>m \<in> set run. \<not> is_user m"
  shows "sections_loop (pre @ u # run) [] None =
           (buildSections pre,
            Some \<lparr>section_id = msg_id u, userMessage = u,
                  assistantMessages = filter is_assistant run\<rparr>)"
proof -
  obtain r c where rc: "sections_loop pre [] None = (r, c)" by (cases "sections_loop pre [] None")
  have nu: "\<forall>m \<in> set run. role m \<noteq> ''user''" using assms(2) by (simp add: is_user_def)
  have "sections_loop (pre @ u # run) [] None = sections_loop (u # run) r c"
    by (simp add: sections_loop_append rc)
  also have "\<dots> = sections_loop run (flush (r, c))
      (Some \<lparr>section_id = msg_id u, userMessage = u, assistantMessages = []\<rparr>)"
    using assms(1) by (simp add: is_user_def flush_def)
  also have "\<dots> = (flush (r, c), Some \<lparr>section_id = msg_id u, userMessage = u,
                  assistantMessages = filter is_assistant run\<rparr>)"
    by (simp add: sections_loop_no_user_open[OF nu])
  finally show ?thesis by (simp add: buildSections_def rc)
qed

lemma buildSections_decompose:
  assumes "is_user u" and "\<forall>m \<in> set run. \<not> is_user m" and "rest = [] \<or> is_user (hd rest)"
  shows "buildSections (pre @ u # run @ rest) =
           buildSections pre
           @ \<lparr>section_id = msg_id u, userMessage = u,
               assistantMessages = filter is_assistant run\<rparr>
           # buildSections rest"
proof -
  let ?s = "\<lparr>section_id = msg_id u, userMessage = u, assistantMessages = filter is_assistant run\<rparr>"
  have split: "sections_loop (pre @ u # run @ rest) [] None =
                 sections_loop rest (buildSections pre) (Some ?s)"
    using sections_loop_append[of "pre @ u # run" rest "[]" None]
          buildSections_snoc_run[OF assms(1,2), of pre]
    by simp
  show ?thesis
  proof (cases rest)
    case Nil
    with split show ?thesis by (simp add: buildSections_def flush_def)
  next
    case (Cons u' rest')
    with assms(3) have u': "role u' = ''user''" by (simp add: is_user_def)
    let ?n = "Some \<lparr>section_id = msg_id u', userMessage = u', assistantMessages = []\<rparr>"
    obtain r c where rc: "sections_loop rest' [] ?n = (r, c)"
      by (cases "sections_loop rest' [] ?n")
    have "sections_loop rest (buildSections pre) (Some ?s) =
            sections_loop rest' ((buildSections pre @ [?s]) @ []) ?n"
      using Cons u' by simp
    also have "\<dots> = ((buildSections pre @ [?s]) @ r, c)"
      by (simp only: sections_loop_result rc split: prod.splits) simp
    finally have "buildSections (pre @ u # run @ rest) = (buildSections pre @ [?s]) @ flush (r, c)"
      using split by (simp add: buildSections_def flush_def split: option.splits)
    moreover have "buildSections rest = flush (r, c)"
      using Cons u' rc by (simp add: buildSections_def)
    ultimately show ?thesis by simp
  qed
qed

lemma buildSections_drop_prefix:
  assumes "\<forall>m \<in> set pre. \<not> is_user m"
  shows "buildSections (pre @ ms) = buildSections ms"
proof -
  have "\<forall>m \<in> set pre. role m \<noteq> ''user''" using assms by (simp add: is_user_def)
  then show ?thesis
    by (simp add: buildSections_def sections_loop_append sections_loop_no_user_closed)
qed

text \<open>
  Claim C4. \<^verbatim>\<open>buildSections\<close> is a function of the message sequence alone (a HOL function,
  so equal inputs give equal outputs) that partitions it: every section is well formed
  (its id is its user message's id, the leader is a user message, the responses are
  assistant messages); the sections read in order hold exactly the user and assistant
  messages from the first user message on, each once and in log order, so that messages of
  any other role and all messages before the first user message are in no section; a user
  message followed by a run without user messages, which ends the log or is followed by a
  user message, leads the one section that holds exactly the assistant messages of that
  run; and a prefix without user messages contributes nothing.
\<close>

theorem buildSections_partition:
  "(\<forall>s \<in> set (buildSections ms). well_formed s)
   \<and> concat (map members (buildSections ms)) =
       filter (\<lambda>m. is_user m \<or> is_assistant m) (dropWhile (\<lambda>m. \<not> is_user m) ms)
   \<and> (is_user u \<and> (\<forall>m \<in> set run. \<not> is_user m) \<and> (rest = [] \<or> is_user (hd rest)) \<longrightarrow>
        buildSections (pre @ u # run @ rest) =
          buildSections pre
          @ \<lparr>section_id = msg_id u, userMessage = u,
              assistantMessages = filter is_assistant run\<rparr>
          # buildSections rest)
   \<and> ((\<forall>m \<in> set pre. \<not> is_user m) \<longrightarrow> buildSections (pre @ ms) = buildSections ms)"
proof -
  have wf: "\<forall>s \<in> set (buildSections ms). well_formed s"
    unfolding buildSections_def
    by (rule sections_loop_well_formed) (simp add: flush_def)
  have flat: "concat (map members (buildSections ms)) =
       filter (\<lambda>m. is_user m \<or> is_assistant m) (dropWhile (\<lambda>m. \<not> is_user m) ms)"
    unfolding buildSections_def sections_loop_members
    by (simp add: flush_def)
  from wf flat buildSections_decompose[of u run rest pre] buildSections_drop_prefix[of pre ms]
  show ?thesis by blast
qed

theorem buildSections_partition_witness:
  "is_user (mk_message ''u1'' ''user'')
   \<and> \<not> is_user (mk_message ''a1'' ''assistant'')
   \<and> \<not> is_user (mk_message ''s1'' ''system'')
   \<and> \<not> is_user (mk_message ''a2'' ''assistant'')
   \<and> is_user (hd [mk_message ''u2'' ''user''])
   \<and> \<not> is_user (mk_message ''s0'' ''system'')
   \<and> \<not> is_user (mk_message ''a0'' ''assistant'')
   \<and> buildSections
        ([mk_message ''s0'' ''system'', mk_message ''a0'' ''assistant'']
         @ mk_message ''u1'' ''user''
         # [mk_message ''a1'' ''assistant'', mk_message ''s1'' ''system'',
            mk_message ''a2'' ''assistant'']
         @ [mk_message ''u2'' ''user'']) =
       [\<lparr>section_id = ''u1'', userMessage = mk_message ''u1'' ''user'',
         assistantMessages = [mk_message ''a1'' ''assistant'', mk_message ''a2'' ''assistant'']\<rparr>,
        \<lparr>section_id = ''u2'', userMessage = mk_message ''u2'' ''user'',
         assistantMessages = []\<rparr>]"
  using buildSections_partition
          [of "[mk_message ''u2'' ''user'']"
              "mk_message ''u1'' ''user''"
              "[mk_message ''a1'' ''assistant'', mk_message ''s1'' ''system'',
                mk_message ''a2'' ''assistant'']"
              "[mk_message ''u2'' ''user'']"
              "[mk_message ''s0'' ''system'', mk_message ''a0'' ''assistant'']"]
  by (simp add: is_user_def is_assistant_def mk_message_def buildSections_def flush_def)

subsection \<open>Outbound transport request\<close>

lemma at_index_last: "at_index xs (int (length xs) - 1) = (if xs = [] then None else Some (last xs))"
proof (cases xs rule: rev_cases)
  case Nil
  then show ?thesis by (simp add: at_index_def)
next
  case (snoc ys y)
  then show ?thesis by (simp add: at_index_def nat_diff_distrib')
qed

lemma find_in_set: "find P xs = Some x \<Longrightarrow> x \<in> set xs \<and> P x"
  by (induction xs) (auto split: if_splits)

lemma find_distinct_ids:
  "distinct (map msg_id ms) \<Longrightarrow>
   (find (\<lambda>m. Some (msg_id m) = k) ms = Some x) = (x \<in> set ms \<and> Some (msg_id x) = k)"
  by (induction ms) auto

text \<open>
  Claim C7. The request body follows the trigger. For \<^verbatim>\<open>submit-user-message\<close> it names that
  trigger and the chat id and carries one message, the last of the log (none when the log
  is empty). For \<^verbatim>\<open>regenerate-assistant-message\<close> it names that trigger, the chat id and the
  target \<^verbatim>\<open>messageId\<close>; a message it carries is a user message of the log with that id, and,
  message ids being unique in the log, it carries the message exactly when the message
  with that id exists in the log and has role \<^verbatim>\<open>user\<close>.
\<close>

theorem prepareSendMessagesRequest_by_trigger:
  "body_trigger (prepareSendMessagesRequest cid ms ''submit-user-message'' k) = ''submit-user-message''
   \<and> body_chatId (prepareSendMessagesRequest cid ms ''submit-user-message'' k) = cid
   \<and> body_message (prepareSendMessagesRequest cid ms ''submit-user-message'' k) =
       (if ms = [] then None else Some (last ms))
   \<and> body_trigger (prepareSendMessagesRequest cid ms ''regenerate-assistant-message'' k) =
       ''regenerate-assistant-message''
   \<and> body_chatId (prepareSendMessagesRequest cid ms ''regenerate-assistant-message'' k) = cid
   \<and> body_messageId (prepareSendMessagesRequest cid ms ''regenerate-assistant-message'' k) = k
   \<and> (body_message (prepareSendMessagesRequest cid ms ''regenerate-assistant-message'' k) = Some x
        \<longrightarrow> x \<in> set ms \<and> Some (msg_id x) = k \<and> role x = ''user'')
   \<and> (distinct (map msg_id ms) \<longrightarrow>
        (body_message (prepareSendMessagesRequest cid ms ''regenerate-assistant-message'' k) = Some x)
        = (x \<in> set ms \<and> Some (msg_id x) = k \<and> role x = ''user''))"
proof -
  let ?b = "prepareSendMessagesRequest cid ms ''regenerate-assistant-message'' k"
  have submit: "body_message (prepareSendMessagesRequest cid ms ''submit-user-message'' k) =
       (if ms = [] then None else Some (last ms))"
    by (simp add: prepareSendMessagesRequest_def at_index_last)
  have only_if: "body_message ?b = Some x \<longrightarrow> x \<in> set ms \<and> Some (msg_id x) = k \<and> role x = ''user''"
    by (auto simp: prepareSendMessagesRequest_def split: option.splits if_splits
             dest: find_in_set)
  have iff: "distinct (map msg_id ms) \<longrightarrow>
        (body_message ?b = Some x) = (x \<in> set ms \<and> Some (msg_id x) = k \<and> role x = ''user'')"
  proof
    assume d: "distinct (map msg_id ms)"
    show "(body_message ?b = Some x) = (x \<in> set ms \<and> Some (msg_id x) = k \<and> role x = ''user'')"
    proof (cases "find (\<lambda>m. Some (msg_id m) = k) ms")
      case None
      then have "\<not> (x \<in> set ms \<and> Some (msg_id x) = k)"
        using find_distinct_ids[OF d, of k x] by simp
      with None show ?thesis by (auto simp: prepareSendMessagesRequest_def)
    next
      case (Some y)
      then have "(y = x) = (x \<in> set ms \<and> Some (msg_id x) = k)"
        using find_distinct_ids[OF d, of k x] by auto
      with Some show ?thesis by (auto simp: prepareSendMessagesRequest_def)
    qed
  qed
  have t1: "body_trigger (prepareSendMessagesRequest cid ms ''submit-user-message'' k) = ''submit-user-message''"
    by (simp add: prepareSendMessagesRequest_def)
  have c1: "body_chatId (prepareSendMessagesRequest cid ms ''submit-user-message'' k) = cid"
    by (simp add: prepareSendMessagesRequest_def)
  have t2: "body_trigger ?b = ''regenerate-assistant-message''"
    by (simp add: prepareSendMessagesRequest_def)
  have c2: "body_chatId ?b = cid"
    by (simp add: prepareSendMessagesRequest_def)
  have m2: "body_messageId ?b = k"
    by (simp add: prepareSendMessagesRequest_def)
  show ?thesis
    by (intro conjI) (rule t1 c1 submit t2 c2 m2 only_if iff)+
qed

theorem prepareSendMessagesRequest_by_trigger_witness:
  "distinct (map msg_id [mk_message ''u1'' ''user'', mk_message ''a1'' ''assistant''])
   \<and> body_message (prepareSendMessagesRequest ''c''
         [mk_message ''u1'' ''user'', mk_message ''a1'' ''assistant'']
         ''regenerate-assistant-message'' (Some ''u1'')) = Some (mk_message ''u1'' ''user'')
   \<and> body_message (prepareSendMessagesRequest ''c''
         [mk_message ''u1'' ''user'', mk_message ''a1'' ''assistant'']
         ''regenerate-assistant-message'' (Some ''a1'')) \<noteq> Some (mk_message ''a1'' ''assistant'')"
  using prepareSendMessagesRequest_by_trigger
          [of "''c''" "[mk_message ''u1'' ''user'', mk_message ''a1'' ''assistant'']"
              "Some ''u1''" "mk_message ''u1'' ''user''"]
        prepareSendMessagesRequest_by_trigger
          [of "''c''" "[mk_message ''u1'' ''user'', mk_message ''a1'' ''assistant'']"
              "Some ''a1''" "mk_message ''a1'' ''assistant''"]
  by (simp add: mk_message_def)

subsection \<open>Persisted parts\<close>

lemma accepted_iff:
  "accepted r =
     (textTextRequired r \<and> reasoningTextRequired r \<and> fileFieldsRequired r
      \<and> toolStateValid r \<and> toolFieldsRequired r)"
  by (simp add: accepted_def violated_checks_def)

text \<open>
  Claim C8. A row that the \<^verbatim>\<open>parts\<close> table accepts satisfies the per-type invariant: type
  \<^verbatim>\<open>text\<close> has a text body, type \<^verbatim>\<open>reasoning\<close> has a reasoning body, type \<^verbatim>\<open>file\<close> has
  media type, filename and url, and a type that starts with \<^verbatim>\<open>tool-\<close> has a call id and a
  state that is one of \<^verbatim>\<open>input-streaming\<close>, \<^verbatim>\<open>input-available\<close>, \<^verbatim>\<open>output-available\<close>,
  \<^verbatim>\<open>output-error\<close>. Conversely a row that breaks the invariant violates at least one check
  constraint, so it is rejected.
\<close>

theorem parts_mandatory_fields:
  "(accepted r \<longrightarrow> mandatory_fields_present r)
   \<and> (\<not> mandatory_fields_present r \<longrightarrow> violated_checks r \<noteq> [])"
proof -
  have "mandatory_fields_present r" if a: "accepted r"
  proof -
    from a have t: "textTextRequired r" and re: "reasoningTextRequired r"
      and f: "fileFieldsRequired r" and sv: "toolStateValid r" and tf: "toolFieldsRequired r"
      by (simp_all add: accepted_iff)
    have tool: "tool_toolCallId r \<noteq> None
            \<and> (\<exists>s. tool_state r = Some s
                   \<and> (s = ''input-streaming'' \<or> s = ''input-available''
                        \<or> s = ''output-available'' \<or> s = ''output-error''))"
      if l: "like_tool (row_type r)"
    proof -
      from tf l have c: "tool_toolCallId r \<noteq> None" and "tool_state r \<noteq> None"
        by (simp_all add: toolFieldsRequired_def)
      then obtain s where s: "tool_state r = Some s" by auto
      with sv have "s = ''input-streaming'' \<or> s = ''input-available''
                        \<or> s = ''output-available'' \<or> s = ''output-error''"
        by (simp add: toolStateValid_def)
      with c s show ?thesis by simp
    qed
    from t re f tool show ?thesis
      unfolding mandatory_fields_present_def textTextRequired_def reasoningTextRequired_def
        fileFieldsRequired_def
      by blast
  qed
  then show ?thesis by (auto simp: accepted_def)
qed

theorem parts_mandatory_fields_witness:
  "accepted ((empty_row ''tool-search'')
              \<lparr>tool_toolCallId := Some ''call_1'', tool_state := Some ''output-available''\<rparr>)
   \<and> mandatory_fields_present ((empty_row ''tool-search'')
              \<lparr>tool_toolCallId := Some ''call_1'', tool_state := Some ''output-available''\<rparr>)
   \<and> \<not> mandatory_fields_present ((empty_row ''file'')
              \<lparr>file_mediaType := Some ''image/png''\<rparr>)
   \<and> violated_checks ((empty_row ''file'')
              \<lparr>file_mediaType := Some ''image/png''\<rparr>) \<noteq> []"
  using parts_mandatory_fields
          [of "(empty_row ''tool-search'')
              \<lparr>tool_toolCallId := Some ''call_1'', tool_state := Some ''output-available''\<rparr>"]
        parts_mandatory_fields
          [of "(empty_row ''file'') \<lparr>file_mediaType := Some ''image/png''\<rparr>"]
  by (simp add: accepted_iff empty_row_def textTextRequired_def reasoningTextRequired_def
        fileFieldsRequired_def toolStateValid_def toolFieldsRequired_def like_tool_def
        mandatory_fields_present_def)

text \<open>
  The rows that the specification lists as rejected, with the constraint each violates; the
  state check applies to rows of every type.
\<close>

lemma parts_rejected_examples:
  "violated_checks ((empty_row ''file'') \<lparr>file_mediaType := Some ''image/png''\<rparr>)
     = [''file_fields_required'']
   \<and> violated_checks ((empty_row ''tool-search'') \<lparr>tool_toolCallId := Some ''call_1''\<rparr>)
     = [''tool_fields_required'']
   \<and> violated_checks (empty_row ''text'') = [''text_text_required'']
   \<and> violated_checks ((empty_row ''text'') \<lparr>text_text := Some ''hi'', tool_state := Some ''done''\<rparr>)
     = [''tool_state_valid'']"
  by (simp add: violated_checks_def empty_row_def textTextRequired_def reasoningTextRequired_def
        fileFieldsRequired_def toolStateValid_def toolFieldsRequired_def like_tool_def)

subsection \<open>Conversion for the database\<close>

text \<open>
  Claim C9. \<^verbatim>\<open>convertMessageForDB\<close> is defined on every message and keeps its role. Its parts
  are empty for \<^verbatim>\<open>null\<close> or \<^verbatim>\<open>undefined\<close> content, one part holding the string for string
  content, the text-typed parts in order for an array with at least one of them, and
  otherwise (an array without text-typed part, or any other value) one part holding the
  JSON serialisation of the whole content.
\<close>

theorem convertMessageForDB_role_and_parts:
  "db_role (convertMessageForDB stringify m) = cm_role m
   \<and> (cm_content m = CNull \<or> cm_content m = CUndefined \<longrightarrow>
        db_parts (convertMessageForDB stringify m) = [])
   \<and> (cm_content m = CString s \<longrightarrow>
        db_parts (convertMessageForDB stringify m) = [\<lparr>db_text = s\<rparr>])
   \<and> (cm_content m = CArray arr \<and> (\<exists>p \<in> set arr. is_text_part p) \<longrightarrow>
        db_parts (convertMessageForDB stringify m) =
          map (\<lambda>p. \<lparr>db_text = cpart_text p\<rparr>) (filter is_text_part arr))
   \<and> (cm_content m = CArray arr \<and> \<not> (\<exists>p \<in> set arr. is_text_part p) \<longrightarrow>
        db_parts (convertMessageForDB stringify m) = [\<lparr>db_text = stringify (cm_content m)\<rparr>])
   \<and> (cm_content m = COther x \<longrightarrow>
        db_parts (convertMessageForDB stringify m) = [\<lparr>db_text = stringify (cm_content m)\<rparr>])"
proof -
  have r: "db_role (convertMessageForDB stringify m) = cm_role m"
    by (simp add: convertMessageForDB_def)
  have n: "cm_content m = CNull \<or> cm_content m = CUndefined \<longrightarrow>
        db_parts (convertMessageForDB stringify m) = []"
    by (auto simp: convertMessageForDB_def)
  have s: "cm_content m = CString s \<longrightarrow>
        db_parts (convertMessageForDB stringify m) = [\<lparr>db_text = s\<rparr>]"
    by (simp add: convertMessageForDB_def)
  have a1: "cm_content m = CArray arr \<and> (\<exists>p \<in> set arr. is_text_part p) \<longrightarrow>
        db_parts (convertMessageForDB stringify m) =
          map (\<lambda>p. \<lparr>db_text = cpart_text p\<rparr>) (filter is_text_part arr)"
  proof
    assume h: "cm_content m = CArray arr \<and> (\<exists>p \<in> set arr. is_text_part p)"
    then have "filter (\<lambda>p. cpart_type p = ''text'') arr \<noteq> []"
      by (auto simp: filter_empty_conv is_text_part_def)
    moreover have "is_text_part = (\<lambda>p. cpart_type p = ''text'')"
      by (rule ext) (simp add: is_text_part_def)
    ultimately show "db_parts (convertMessageForDB stringify m) =
          map (\<lambda>p. \<lparr>db_text = cpart_text p\<rparr>) (filter is_text_part arr)"
      using h by (simp add: convertMessageForDB_def)
  qed
  have a2: "cm_content m = CArray arr \<and> \<not> (\<exists>p \<in> set arr. is_text_part p) \<longrightarrow>
        db_parts (convertMessageForDB stringify m) = [\<lparr>db_text = stringify (cm_content m)\<rparr>]"
  proof
    assume h: "cm_content m = CArray arr \<and> \<not> (\<exists>p \<in> set arr. is_text_part p)"
    then have "filter (\<lambda>p. cpart_type p = ''text'') arr = []"
      by (auto simp: filter_empty_conv is_text_part_def)
    then show "db_parts (convertMessageForDB stringify m) = [\<lparr>db_text = stringify (cm_content m)\<rparr>]"
      using h by (simp add: convertMessageForDB_def)
  qed
  have o: "cm_content m = COther x \<longrightarrow>
        db_parts (convertMessageForDB stringify m) = [\<lparr>db_text = stringify (cm_content m)\<rparr>]"
    by (simp add: convertMessageForDB_def)
  show ?thesis
    by (intro conjI) (rule r n s a1 a2 o)+
qed

theorem convertMessageForDB_role_and_parts_witness:
  "is_text_part (hd example_array)
   \<and> convertMessageForDB (\<lambda>c. ''[]'')
        \<lparr>cm_role = ''assistant'', cm_content = (CArray example_array :: unit msg_content)\<rparr>
      = \<lparr>db_role = ''assistant'',
         db_parts = [\<lparr>db_text = ''Searching''\<rparr>, \<lparr>db_text = ''Done''\<rparr>]\<rparr>"
  using convertMessageForDB_role_and_parts
          [of "\<lambda>c. ''[]''"
              "\<lparr>cm_role = ''assistant'', cm_content = (CArray example_array :: unit msg_content)\<rparr>"
              "[]" example_array "()"]
  by (simp add: example_array_def is_text_part_def convertMessageForDB_def)


subsection \<open>Title extraction\<close>

lemma find_first:
  "\<forall>q \<in> set pre. \<not> P q \<Longrightarrow> P p \<Longrightarrow> find P (pre @ p # post) = Some p"
  by (induction pre) simp_all

lemma find_None_iff': "(find P xs = None) = (\<forall>x \<in> set xs. \<not> P x)"
  by (induction xs) simp_all

lemma length_extractTitle:
  "int (length (extractTitleFromMessage m n)) \<le> max n 8"
  by (auto simp: extractTitleFromMessage_def substring0_def split: msg_content.splits option.splits)

text \<open>
  Claim C10, as the code has it. The title is at most \<open>max maxLength 8\<close> long, so at most
  \<^verbatim>\<open>maxLength\<close> whenever that is 8 or more, as the default 100 is. It is the first
  \<^verbatim>\<open>maxLength\<close> characters of a non-empty string content and of the first text-typed part of
  an array content, and the literal \<^verbatim>\<open>New Chat\<close> when the content is \<^verbatim>\<open>null\<close>, \<^verbatim>\<open>undefined\<close>,
  the empty string or an array without text-typed part.
\<close>

theorem extractTitleFromMessage_bounded_cases:
  "int (length (extractTitleFromMessage m n)) \<le> max n 8
   \<and> length (extractTitleFromMessage_default m) \<le> 100
   \<and> (cm_content m = CString s \<and> s \<noteq> [] \<longrightarrow>
        extractTitleFromMessage m n = take (nat n) s)
   \<and> (cm_content m = CArray (pre @ p # post) \<and> (\<forall>q \<in> set pre. \<not> is_text_part q) \<and> is_text_part p
        \<longrightarrow> extractTitleFromMessage m n = take (nat n) (cpart_text p))
   \<and> (cm_content m = CNull \<or> cm_content m = CUndefined \<or> cm_content m = CString []
        \<or> (cm_content m = CArray arr \<and> (\<forall>q \<in> set arr. \<not> is_text_part q))
        \<longrightarrow> extractTitleFromMessage m n = ''New Chat'')"
proof -
  have len: "int (length (extractTitleFromMessage m n)) \<le> max n 8"
    by (rule length_extractTitle)
  have dflt: "length (extractTitleFromMessage_default m) \<le> 100"
    using length_extractTitle[of m 100] by (simp add: extractTitleFromMessage_default_def)
  have str: "cm_content m = CString s \<and> s \<noteq> [] \<longrightarrow>
        extractTitleFromMessage m n = take (nat n) s"
    by (simp add: extractTitleFromMessage_def substring0_def)
  have arr1: "cm_content m = CArray (pre @ p # post) \<and> (\<forall>q \<in> set pre. \<not> is_text_part q)
        \<and> is_text_part p \<longrightarrow> extractTitleFromMessage m n = take (nat n) (cpart_text p)"
  proof
    assume h: "cm_content m = CArray (pre @ p # post) \<and> (\<forall>q \<in> set pre. \<not> is_text_part q)
        \<and> is_text_part p"
    then have "find (\<lambda>p. cpart_type p = ''text'') (pre @ p # post) = Some p"
      by (intro find_first) (simp_all add: is_text_part_def)
    with h show "extractTitleFromMessage m n = take (nat n) (cpart_text p)"
      by (simp add: extractTitleFromMessage_def substring0_def)
  qed
  have fb: "cm_content m = CNull \<or> cm_content m = CUndefined \<or> cm_content m = CString []
        \<or> (cm_content m = CArray arr \<and> (\<forall>q \<in> set arr. \<not> is_text_part q))
        \<longrightarrow> extractTitleFromMessage m n = ''New Chat''"
  proof
    assume h: "cm_content m = CNull \<or> cm_content m = CUndefined \<or> cm_content m = CString []
        \<or> (cm_content m = CArray arr \<and> (\<forall>q \<in> set arr. \<not> is_text_part q))"
    have "find (\<lambda>p. cpart_type p = ''text'') arr = None" if "\<forall>q \<in> set arr. \<not> is_text_part q"
      using that by (simp add:  find_None_iff' is_text_part_def)
    with h show "extractTitleFromMessage m n = ''New Chat''"
      by (auto simp: extractTitleFromMessage_def)
  qed
  show ?thesis
    by (intro conjI) (rule len dflt str arr1 fb)+
qed

theorem extractTitleFromMessage_bounded_cases_witness:
  "\<not> is_text_part \<lparr>cpart_type = ''tool-call'', cpart_text = ''''\<rparr>
   \<and> is_text_part \<lparr>cpart_type = ''text'', cpart_text = ''Hello world''\<rparr>
   \<and> extractTitleFromMessage
        \<lparr>cm_role = ''user'',
         cm_content = (CArray ([\<lparr>cpart_type = ''tool-call'', cpart_text = ''''\<rparr>]
                        @ \<lparr>cpart_type = ''text'', cpart_text = ''Hello world''\<rparr> # [])
                       :: unit msg_content)\<rparr> 5 = ''Hello''"
  using extractTitleFromMessage_bounded_cases
          [of "\<lparr>cm_role = ''user'',
         cm_content = (CArray ([\<lparr>cpart_type = ''tool-call'', cpart_text = ''''\<rparr>]
                        @ \<lparr>cpart_type = ''text'', cpart_text = ''Hello world''\<rparr> # [])
                       :: unit msg_content)\<rparr>" 5 "[]"
              "[\<lparr>cpart_type = ''tool-call'', cpart_text = ''''\<rparr>]"
              "\<lparr>cpart_type = ''text'', cpart_text = ''Hello world''\<rparr>" "[]" "[]"]
  by (simp add: is_text_part_def)

text \<open>
  The claim as first stated fails twice: the empty string is a string, yet its title is
  \<^verbatim>\<open>New Chat\<close> and not its (empty) prefix; and with \<^verbatim>\<open>maxLength = 3\<close> a message without
  content gets the eight characters of \<^verbatim>\<open>New Chat\<close>.
\<close>

theorem extractTitleFromMessage_counterexample:
  "extractTitleFromMessage \<lparr>cm_role = ''user'', cm_content = (CString '''' :: unit msg_content)\<rparr> 100
     \<noteq> substring0 '''' 100
   \<and> \<not> int (length (extractTitleFromMessage
                \<lparr>cm_role = ''user'', cm_content = (CNull :: unit msg_content)\<rparr> 3)) \<le> 3"
  by (simp add: extractTitleFromMessage_def substring0_def)

subsection \<open>Array search\<close>

lemma findIndex_bounds: "- 1 \<le> findIndex P xs \<and> findIndex P xs < int (length xs)"
  by (induction xs) (auto simp: Let_def)

lemma findIndex_absent: "(findIndex P xs = - 1) = (\<forall>x \<in> set xs. \<not> P x)"
proof (induction xs)
  case Nil
  show ?case by simp
next
  case (Cons x xs)
  have "- 1 \<le> findIndex P xs" using findIndex_bounds[of P xs] by simp
  with Cons show ?case by (auto simp: Let_def)
qed

lemma findIndex_first:
  "\<forall>x \<in> set pre. \<not> P x \<Longrightarrow> P y \<Longrightarrow> findIndex P (pre @ y # post) = int (length pre)"
  by (induction pre) (auto simp: Let_def)

lemma findIndex_hit:
  "findIndex P xs \<noteq> - 1 \<Longrightarrow> P (xs ! nat (findIndex P xs))"
proof (induction xs)
  case Nil
  then show ?case by simp
next
  case (Cons x xs)
  show ?case
  proof (cases "P x")
    case True
    then show ?thesis by simp
  next
    case False
    with Cons.prems have ne: "findIndex P xs \<noteq> - 1" by (auto simp: Let_def)
    have ge: "0 \<le> findIndex P xs" using findIndex_bounds[of P xs] ne by arith
    from False ne have "findIndex P (x # xs) = findIndex P xs + 1" by (simp add: Let_def)
    moreover have "nat (findIndex P xs + 1) = Suc (nat (findIndex P xs))" using ge by simp
    ultimately show ?thesis using Cons.IH[OF ne] by simp
  qed
qed

lemma find_None_findIndex: "(find P xs = None) = (findIndex P xs = - 1)"
  by (auto simp: findIndex_absent find_None_iff)

subsection \<open>Manual replay strategy: what a run does\<close>

lemma edit_manual_no_chat:
  "handleUpdateAndReloadMessage_manual e [] msgs k txt st =
     st\<lparr>trace := trace st
        @ [ToastError ''Chat ID is missing.'',
           ConsoleError ''handleUpdateAndReloadMessage: chatId (id prop) is undefined.'']\<rparr>"
  by (simp add: handleUpdateAndReloadMessage_manual_def emit_def)

lemma edit_manual_not_found:
  assumes "cid \<noteq> []" and "find (\<lambda>m. msg_id m = k) msgs = None"
  shows "handleUpdateAndReloadMessage_manual e cid msgs k txt st =
     st\<lparr>trace := trace st
        @ [ToastError ''Original message not found to edit locally.'',
           ConsoleError ''handleUpdateAndReloadMessage: Pivot message not found for timestamp.'']\<rparr>"
  using assms by (simp add: handleUpdateAndReloadMessage_manual_def emit_def)

lemma edit_manual_run:
  assumes "cid \<noteq> []" and "find (\<lambda>m. msg_id m = k) msgs = Some pivot"
  shows "handleUpdateAndReloadMessage_manual e cid msgs k txt st =
           st\<lparr>messages := editUpdater_manual e k txt (messages st),
              trace := trace st
                @ SetMessages (editUpdater_manual e k txt (messages st))
                # remote_steps_edit e cid (timestampOrEpoch pivot)
                    (editUpdater_manual e k txt (messages st))\<rparr>"
  using assms
  by (simp add: handleUpdateAndReloadMessage_manual_def emit_def setMessages_def catch_edit_def
        remote_steps_edit_def Let_def split: option.splits)


lemma edit_manual_issued:
  "issued st (handleUpdateAndReloadMessage_manual e cid msgs k txt st) =
     (if cid = [] then
        [ToastError ''Chat ID is missing.'',
         ConsoleError ''handleUpdateAndReloadMessage: chatId (id prop) is undefined.'']
      else
        (case find (\<lambda>m. msg_id m = k) msgs of
           None \<Rightarrow>
             [ToastError ''Original message not found to edit locally.'',
              ConsoleError ''handleUpdateAndReloadMessage: Pivot message not found for timestamp.'']
         | Some pivot \<Rightarrow>
             SetMessages (editUpdater_manual e k txt (messages st))
             # remote_steps_edit e cid (timestampOrEpoch pivot)
                 (editUpdater_manual e k txt (messages st))))"
proof (cases "cid = []")
  case True
  then show ?thesis by (simp add: edit_manual_no_chat issued_def)
next
  case False
  show ?thesis
  proof (cases "find (\<lambda>m. msg_id m = k) msgs")
    case None
    with False show ?thesis by (simp add: edit_manual_not_found issued_def)
  next
    case (Some pivot)
    with False show ?thesis by (simp add: edit_manual_run issued_def)
  qed
qed

lemma edit_manual_messages:
  "messages (handleUpdateAndReloadMessage_manual e cid msgs k txt st) =
     (if cid = [] \<or> find (\<lambda>m. msg_id m = k) msgs = None then messages st
      else editUpdater_manual e k txt (messages st))"
proof (cases "cid = []")
  case True
  then show ?thesis by (simp add: edit_manual_no_chat)
next
  case False
  show ?thesis
  proof (cases "find (\<lambda>m. msg_id m = k) msgs")
    case None
    with False show ?thesis by (simp add: edit_manual_not_found)
  next
    case (Some pivot)
    with False show ?thesis by (simp add: edit_manual_run)
  qed
qed

lemma reload_manual_no_chat:
  "handleReloadFrom_manual e [] msgs k st =
     st\<lparr>trace := trace st @ [ToastError ''Chat ID is missing for reload.'']\<rparr>"
  by (simp add: handleReloadFrom_manual_def emit_def)

lemma reload_manual_no_predecessor:
  assumes "cid \<noteq> []" and "findIndex (\<lambda>m. msg_id m = k) msgs < 1"
  shows "handleReloadFrom_manual e cid msgs k st =
     st\<lparr>trace := trace st
        @ [ToastError ''Cannot reload: No preceding message found or message is the first.'',
           ConsoleError (''handleReloadFrom: No message found before id '' @ k
                          @ '' or it is the first message.'')]\<rparr>"
  using assms by (simp add: handleReloadFrom_manual_def emit_def)

lemma reload_manual_wrong_role:
  assumes "cid \<noteq> []" and "\<not> findIndex (\<lambda>m. msg_id m = k) msgs < 1"
    and "role (msgs ! nat (findIndex (\<lambda>m. msg_id m = k) msgs - 1)) \<noteq> ''user''"
  shows "handleReloadFrom_manual e cid msgs k st =
     st\<lparr>trace := trace st
        @ [ToastError ''Cannot reload: The message to resend must be a user message.'',
           ConsoleError (''handleReloadFrom: Preceding message (id: ''
             @ msg_id (msgs ! nat (findIndex (\<lambda>m. msg_id m = k) msgs - 1))
             @ '') is not a user message.'')]\<rparr>"
  using assms by (simp add: handleReloadFrom_manual_def emit_def Let_def)

lemma reload_manual_run:
  assumes "cid \<noteq> []" and "\<not> findIndex (\<lambda>m. msg_id m = k) msgs < 1"
    and "role (msgs ! nat (findIndex (\<lambda>m. msg_id m = k) msgs - 1)) = ''user''"
  shows "handleReloadFrom_manual e cid msgs k st =
     st\<lparr>messages :=
          reloadUpdater_manual e (findIndex (\<lambda>m. msg_id m = k) msgs - 1)
            (contentToResend (msgs ! nat (findIndex (\<lambda>m. msg_id m = k) msgs - 1))) (messages st),
        trace := trace st
          @ SetMessages
              (reloadUpdater_manual e (findIndex (\<lambda>m. msg_id m = k) msgs - 1)
                (contentToResend (msgs ! nat (findIndex (\<lambda>m. msg_id m = k) msgs - 1)))
                (messages st))
          # remote_steps_reload e cid
              (timestampOrEpoch (msgs ! nat (findIndex (\<lambda>m. msg_id m = k) msgs)))
              (reloadUpdater_manual e (findIndex (\<lambda>m. msg_id m = k) msgs - 1)
                (contentToResend (msgs ! nat (findIndex (\<lambda>m. msg_id m = k) msgs - 1)))
                (messages st))
              k\<rparr>"
  using assms
  by (simp add: handleReloadFrom_manual_def emit_def setMessages_def catch_reload_def
        remote_steps_reload_def Let_def split: option.splits)

lemma reload_manual_issued:
  "issued st (handleReloadFrom_manual e cid msgs k st) =
     (if cid = [] then [ToastError ''Chat ID is missing for reload.'']
      else if findIndex (\<lambda>m. msg_id m = k) msgs < 1 then
        [ToastError ''Cannot reload: No preceding message found or message is the first.'',
         ConsoleError (''handleReloadFrom: No message found before id '' @ k
                        @ '' or it is the first message.'')]
      else if role (msgs ! nat (findIndex (\<lambda>m. msg_id m = k) msgs - 1)) \<noteq> ''user'' then
        [ToastError ''Cannot reload: The message to resend must be a user message.'',
         ConsoleError (''handleReloadFrom: Preceding message (id: ''
           @ msg_id (msgs ! nat (findIndex (\<lambda>m. msg_id m = k) msgs - 1))
           @ '') is not a user message.'')]
      else
        SetMessages
          (reloadUpdater_manual e (findIndex (\<lambda>m. msg_id m = k) msgs - 1)
             (contentToResend (msgs ! nat (findIndex (\<lambda>m. msg_id m = k) msgs - 1)))
             (messages st))
        # remote_steps_reload e cid
            (timestampOrEpoch (msgs ! nat (findIndex (\<lambda>m. msg_id m = k) msgs)))
            (reloadUpdater_manual e (findIndex (\<lambda>m. msg_id m = k) msgs - 1)
               (contentToResend (msgs ! nat (findIndex (\<lambda>m. msg_id m = k) msgs - 1)))
               (messages st))
            k)"
proof (cases "cid = []")
  case True
  then show ?thesis by (simp add: reload_manual_no_chat issued_def)
next
  case False
  show ?thesis
  proof (cases "findIndex (\<lambda>m. msg_id m = k) msgs < 1")
    case True
    with False show ?thesis by (simp add: reload_manual_no_predecessor issued_def)
  next
    case F: False
    show ?thesis
    proof (cases "role (msgs ! nat (findIndex (\<lambda>m. msg_id m = k) msgs - 1)) = ''user''")
      case True
      from reload_manual_run[OF False F True] False F True show ?thesis
        by (simp add: issued_def)
    next
      case R: False
      from reload_manual_wrong_role[OF False F R] False F R show ?thesis
        by (simp add: issued_def)
    qed
  qed
qed

lemma aborted_toast_console:
  "aborted st (st\<lparr>trace := trace st @ [ToastError t, ConsoleError c]\<rparr>)"
  by (simp add: aborted_def issued_def)

lemma aborted_toast:
  "aborted st (st\<lparr>trace := trace st @ [ToastError t]\<rparr>)"
  by (simp add: aborted_def issued_def)

lemma edit_manual_absent_aborted:
  assumes "\<forall>m \<in> set msgs. msg_id m \<noteq> k"
  shows "aborted st (handleUpdateAndReloadMessage_manual e cid msgs k txt st)"
proof (cases "cid = []")
  case True
  then show ?thesis by (simp only: edit_manual_no_chat aborted_toast_console)
next
  case False
  from assms have "find (\<lambda>m. msg_id m = k) msgs = None" by (simp add: find_None_iff)
  from edit_manual_not_found[OF False this] show ?thesis
    by (simp only: aborted_toast_console)
qed

lemma reload_manual_index_aborted:
  assumes "findIndex (\<lambda>m. msg_id m = k) msgs < 1
           \<or> role (msgs ! nat (findIndex (\<lambda>m. msg_id m = k) msgs - 1)) \<noteq> ''user''"
  shows "aborted st (handleReloadFrom_manual e cid msgs k st)"
proof (cases "cid = []")
  case True
  then show ?thesis by (simp only: reload_manual_no_chat aborted_toast)
next
  case False
  show ?thesis
  proof (cases "findIndex (\<lambda>m. msg_id m = k) msgs < 1")
    case True
    from reload_manual_no_predecessor[OF False True] show ?thesis
      by (simp only: aborted_toast_console)
  next
    case F: False
    with assms have "role (msgs ! nat (findIndex (\<lambda>m. msg_id m = k) msgs - 1)) \<noteq> ''user''"
      by simp
    from reload_manual_wrong_role[OF False F this] show ?thesis
      by (simp only: aborted_toast_console)
  qed
qed

subsection \<open>Server-delegated strategy: what a run does\<close>

lemma editUpdater_delegated_absent:
  "\<forall>m \<in> set ms. msg_id m \<noteq> k \<Longrightarrow> editUpdater_delegated k txt ms = ms"
  by (simp add: editUpdater_delegated_def findIndex_absent[symmetric])

lemma editUpdater_delegated_present:
  assumes "\<forall>m \<in> set pre. msg_id m \<noteq> k" and "msg_id t = k"
  shows "editUpdater_delegated k txt (pre @ t # post) =
           pre @ t\<lparr>parts := Some [\<lparr>part_type = ''text'', part_text = txt\<rparr>]\<rparr> # post"
proof -
  have "findIndex (\<lambda>m. msg_id m = k) (pre @ t # post) = int (length pre)"
    using assms by (intro findIndex_first) simp_all
  then show ?thesis by (simp add: editUpdater_delegated_def)
qed

lemma edit_delegated_run:
  assumes "cid \<noteq> []"
  shows "handleUpdateAndReloadMessage_delegated e cid k txt st =
           st\<lparr>messages := editUpdater_delegated k txt (messages st),
              trace := trace st
                @ SetMessages (editUpdater_delegated k txt (messages st))
                # Regenerate k
                # (case regenerate e (editUpdater_delegated k txt (messages st)) k of
                     Some err \<Rightarrow>
                       [ConsoleError ''Error during message edit and reload process:'',
                        ToastError (''Error processing edited message: '' @ err)]
                   | None \<Rightarrow> [])\<rparr>"
  using assms
  by (simp add: handleUpdateAndReloadMessage_delegated_def emit_def setMessages_def
        catch_edit_def Let_def split: option.splits)

lemma reload_delegated_run:
  assumes "cid \<noteq> []"
  shows "handleReloadFrom_delegated e cid k st =
           st\<lparr>trace := trace st
                @ Regenerate k
                # (case regenerate e (messages st) k of
                     Some err \<Rightarrow>
                       [ConsoleError (''Error during reload from message '' @ k @ '':''),
                        ToastError (''Failed to reload conversation: '' @ err)]
                   | None \<Rightarrow> [])\<rparr>"
  using assms
  by (simp add: handleReloadFrom_delegated_def emit_def catch_reload_def Let_def
        split: option.splits)

subsection \<open>Edit and regenerate on a four-message log\<close>

text \<open>
  Claim C1. Under the manual replay strategy, with a chat id present and the ids of the two
  messages before \<open>U2\<close> different from that of \<open>U2\<close>, editing \<open>U2\<close> of the log
  \<open>[U1, A1, U2, A2]\<close> with text \<open>X\<close> leaves the local log \<open>[U1, A1, U2']\<close>, where \<open>U2'\<close> is a user
  message with the id that \<^verbatim>\<open>generateUUID\<close> returned and the single text part \<open>X\<close>; and the run
  issues exactly one store truncation, for this chat id, whose pivot is the ISO rendering
  of \<open>U2.createdAt\<close>, or of the epoch when \<open>U2\<close> has no creation time. This holds whatever
  the two remote calls answer.
\<close>

theorem edit_manual_four_messages:
  assumes "cid \<noteq> []" and "msg_id U1 \<noteq> msg_id U2" and "msg_id A1 \<noteq> msg_id U2"
  shows "messages (handleUpdateAndReloadMessage_manual e cid [U1, A1, U2, A2] (msg_id U2) X
                     \<lparr>messages = [U1, A1, U2, A2], trace = tr\<rparr>)
           = [U1, A1,
              \<lparr>msg_id = generateUUID e, role = ''user'', content = Some X,
               parts = Some [\<lparr>part_type = ''text'', part_text = X\<rparr>],
               createdAt = Some (newDate e)\<rparr>]
         \<and> filter is_truncation
             (issued \<lparr>messages = [U1, A1, U2, A2], trace = tr\<rparr>
                (handleUpdateAndReloadMessage_manual e cid [U1, A1, U2, A2] (msg_id U2) X
                   \<lparr>messages = [U1, A1, U2, A2], trace = tr\<rparr>))
           = [DeleteTrailingMessages cid
                (case createdAt U2 of Some d \<Rightarrow> toISOString d | None \<Rightarrow> toISOString 0)]"
proof -
  let ?log = "[U1, A1, U2, A2]"
  let ?st = "\<lparr>messages = ?log, trace = tr\<rparr>"
  have pivot: "find (\<lambda>m. msg_id m = msg_id U2) ?log = Some U2"
    using assms(2,3) by simp
  have idx: "findIndex (\<lambda>m. msg_id m = msg_id U2) ?log = 2"
    using assms(2,3) by (simp add: Let_def)
  have new: "editUpdater_manual e (msg_id U2) X ?log =
               [U1, A1,
                \<lparr>msg_id = generateUUID e, role = ''user'', content = Some X,
                 parts = Some [\<lparr>part_type = ''text'', part_text = X\<rparr>],
                 createdAt = Some (newDate e)\<rparr>]"
    unfolding editUpdater_manual_def idx by (simp add: slice0_def)
  have trunc: "filter is_truncation (remote_steps_edit e cid ts l) = [DeleteTrailingMessages cid ts]"
    for ts l
    by (simp add: remote_steps_edit_def split: option.splits)
  have st': "messages (handleUpdateAndReloadMessage_manual e cid ?log (msg_id U2) X ?st)
               = editUpdater_manual e (msg_id U2) X ?log"
    unfolding edit_manual_messages pivot using assms(1) by simp
  have ev: "issued ?st (handleUpdateAndReloadMessage_manual e cid ?log (msg_id U2) X ?st)
              = SetMessages (editUpdater_manual e (msg_id U2) X ?log)
                # remote_steps_edit e cid (timestampOrEpoch U2)
                    (editUpdater_manual e (msg_id U2) X ?log)"
    unfolding edit_manual_issued pivot using assms(1) by simp
  show ?thesis
    unfolding st' ev new by (simp add: trunc timestampOrEpoch_def)
qed

theorem edit_manual_four_messages_witness:
  "''chat'' \<noteq> []
   \<and> msg_id (stamped ''u1'' ''user'' 10) \<noteq> msg_id (stamped ''u2'' ''user'' 30)
   \<and> msg_id (stamped ''a1'' ''assistant'' 20) \<noteq> msg_id (stamped ''u2'' ''user'' 30)
   \<and> messages (handleUpdateAndReloadMessage_manual quiet_env ''chat'' example_log ''u2'' ''X''
                 \<lparr>messages = example_log, trace = []\<rparr>)
       = [stamped ''u1'' ''user'' 10, stamped ''a1'' ''assistant'' 20,
          \<lparr>msg_id = ''fresh'', role = ''user'', content = Some ''X'',
           parts = Some [\<lparr>part_type = ''text'', part_text = ''X''\<rparr>], createdAt = Some 50\<rparr>]
   \<and> filter is_truncation
         (issued \<lparr>messages = example_log, trace = []\<rparr>
            (handleUpdateAndReloadMessage_manual quiet_env ''chat'' example_log ''u2'' ''X''
               \<lparr>messages = example_log, trace = []\<rparr>))
       = [DeleteTrailingMessages ''chat'' (ISOString 30)]"
  using edit_manual_four_messages
          [of "''chat''" "stamped ''u1'' ''user'' 10" "stamped ''u2'' ''user'' 30"
              "stamped ''a1'' ''assistant'' 20" quiet_env "stamped ''a2'' ''assistant'' 40"
              "''X''" "[]"]
  by (simp add: example_log_def stamped_def mk_message_def quiet_env_def toISOString_def)

subsection \<open>Ordering of the effects of edit and regenerate\<close>

text \<open>
  Claim C2. In every run of the edit handler of the manual replay strategy, the one that
  performs all three effects: a truncation is issued only after the
  local write; a transport call is issued only after a truncation, and only when that
  truncation resolved; the log at the end of the run is the one the local write installed
  (nothing is rolled back); a rejected truncation is reported by a notification carrying
  the error's message and no transport call follows; a rejected reload is reported the
  same way. When the chat id is present and the target exists, the run does start with the
  local write followed by the truncation call, and a resolved truncation is followed by the
  reload call.
\<close>

theorem edit_manual_ordered_no_rollback:
  "preceded is_local_write is_truncation
     (issued st (handleUpdateAndReloadMessage_manual e cid msgs k txt st))
   \<and> preceded is_truncation is_transport
       (issued st (handleUpdateAndReloadMessage_manual e cid msgs k txt st))
   \<and> (list_ex is_transport (issued st (handleUpdateAndReloadMessage_manual e cid msgs k txt st))
        \<longrightarrow> (\<exists>ts. DeleteTrailingMessages cid ts
                     \<in> set (issued st (handleUpdateAndReloadMessage_manual e cid msgs k txt st))
                  \<and> deleteTrailingMessages e cid ts = None))
   \<and> (\<forall>new. SetMessages new
               \<in> set (issued st (handleUpdateAndReloadMessage_manual e cid msgs k txt st))
        \<longrightarrow> messages (handleUpdateAndReloadMessage_manual e cid msgs k txt st) = new)
   \<and> (\<forall>ts err. DeleteTrailingMessages cid ts
               \<in> set (issued st (handleUpdateAndReloadMessage_manual e cid msgs k txt st))
             \<and> deleteTrailingMessages e cid ts = Some err
        \<longrightarrow> ToastError (''Error processing edited message: '' @ err)
               \<in> set (issued st (handleUpdateAndReloadMessage_manual e cid msgs k txt st))
            \<and> \<not> list_ex is_transport
                   (issued st (handleUpdateAndReloadMessage_manual e cid msgs k txt st)))
   \<and> (\<forall>err. Reload \<in> set (issued st (handleUpdateAndReloadMessage_manual e cid msgs k txt st))
             \<and> reload e (messages (handleUpdateAndReloadMessage_manual e cid msgs k txt st))
                 = Some err
        \<longrightarrow> ToastError (''Error processing edited message: '' @ err)
               \<in> set (issued st (handleUpdateAndReloadMessage_manual e cid msgs k txt st)))
   \<and> (cid \<noteq> [] \<and> find (\<lambda>m. msg_id m = k) msgs = Some pivot
        \<longrightarrow> take 2 (issued st (handleUpdateAndReloadMessage_manual e cid msgs k txt st))
              = [SetMessages (editUpdater_manual e k txt (messages st)),
                 DeleteTrailingMessages cid (timestampOrEpoch pivot)]
            \<and> (deleteTrailingMessages e cid (timestampOrEpoch pivot) = None
                 \<longrightarrow> issued st (handleUpdateAndReloadMessage_manual e cid msgs k txt st) ! 2
                       = Reload))"
proof -
  let ?st' = "handleUpdateAndReloadMessage_manual e cid msgs k txt st"
  have p1: "preceded is_local_write is_truncation (issued st ?st')"
    by (simp add: edit_manual_issued remote_steps_edit_def split: option.splits)
  have p2: "preceded is_truncation is_transport (issued st ?st')"
    by (simp add: edit_manual_issued remote_steps_edit_def split: option.splits)
  have p3: "list_ex is_transport (issued st ?st')
        \<longrightarrow> (\<exists>ts. DeleteTrailingMessages cid ts \<in> set (issued st ?st')
                  \<and> deleteTrailingMessages e cid ts = None)"
    by (auto simp: edit_manual_issued remote_steps_edit_def split: option.splits if_splits)
  have p4: "\<forall>new. SetMessages new \<in> set (issued st ?st') \<longrightarrow> messages ?st' = new"
    by (auto simp: edit_manual_issued edit_manual_messages remote_steps_edit_def
          split: option.splits if_splits)
  have p5: "\<forall>ts err. DeleteTrailingMessages cid ts \<in> set (issued st ?st')
             \<and> deleteTrailingMessages e cid ts = Some err
        \<longrightarrow> ToastError (''Error processing edited message: '' @ err) \<in> set (issued st ?st')
            \<and> \<not> list_ex is_transport (issued st ?st')"
    by (auto simp: edit_manual_issued remote_steps_edit_def split: option.splits if_splits)
  have p6: "\<forall>err. Reload \<in> set (issued st ?st') \<and> reload e (messages ?st') = Some err
        \<longrightarrow> ToastError (''Error processing edited message: '' @ err) \<in> set (issued st ?st')"
    by (auto simp: edit_manual_issued edit_manual_messages remote_steps_edit_def
          split: option.splits if_splits)
  have p7: "cid \<noteq> [] \<and> find (\<lambda>m. msg_id m = k) msgs = Some pivot
        \<longrightarrow> take 2 (issued st ?st')
              = [SetMessages (editUpdater_manual e k txt (messages st)),
                 DeleteTrailingMessages cid (timestampOrEpoch pivot)]
            \<and> (deleteTrailingMessages e cid (timestampOrEpoch pivot) = None
                 \<longrightarrow> issued st ?st' ! 2 = Reload)"
    by (simp add: edit_manual_issued remote_steps_edit_def numeral_2_eq_2)
  show ?thesis
    by (intro conjI) (rule p1 p2 p3 p4 p5 p6 p7)+
qed

theorem edit_manual_ordered_no_rollback_witness:
  "''chat'' \<noteq> []
   \<and> find (\<lambda>m. msg_id m = ''u2'') example_log = Some (stamped ''u2'' ''user'' 30)
   \<and> deleteTrailingMessages failing_env ''chat'' (ISOString 30) = Some ''store unreachable''
   \<and> issued \<lparr>messages = example_log, trace = []\<rparr>
        (handleUpdateAndReloadMessage_manual failing_env ''chat'' example_log ''u2'' ''X''
           \<lparr>messages = example_log, trace = []\<rparr>)
       = [SetMessages
            [stamped ''u1'' ''user'' 10, stamped ''a1'' ''assistant'' 20,
             \<lparr>msg_id = ''fresh'', role = ''user'', content = Some ''X'',
              parts = Some [\<lparr>part_type = ''text'', part_text = ''X''\<rparr>], createdAt = Some 50\<rparr>],
          DeleteTrailingMessages ''chat'' (ISOString 30),
          ConsoleError ''Error during message edit and reload process:'',
          ToastError ''Error processing edited message: store unreachable'']
   \<and> messages
        (handleUpdateAndReloadMessage_manual failing_env ''chat'' example_log ''u2'' ''X''
           \<lparr>messages = example_log, trace = []\<rparr>)
       = [stamped ''u1'' ''user'' 10, stamped ''a1'' ''assistant'' 20,
          \<lparr>msg_id = ''fresh'', role = ''user'', content = Some ''X'',
           parts = Some [\<lparr>part_type = ''text'', part_text = ''X''\<rparr>], createdAt = Some 50\<rparr>]"
  using edit_manual_ordered_no_rollback
          [of "\<lparr>messages = example_log, trace = []\<rparr>" failing_env "''chat''" example_log
              "''u2''" "''X''" "stamped ''u2'' ''user'' 30"]
  by (simp add: handleUpdateAndReloadMessage_manual_def setMessages_def emit_def catch_edit_def
        editUpdater_manual_def slice0_def timestampOrEpoch_def toISOString_def issued_def
        failing_env_def quiet_env_def example_log_def stamped_def mk_message_def Let_def)

text \<open>The manual reload-from handler orders its effects in the same way.\<close>

lemma reload_manual_ordered:
  "preceded is_local_write is_truncation (issued st (handleReloadFrom_manual e cid msgs k st))
   \<and> preceded is_truncation is_transport (issued st (handleReloadFrom_manual e cid msgs k st))
   \<and> (list_ex is_transport (issued st (handleReloadFrom_manual e cid msgs k st))
        \<longrightarrow> (\<exists>ts. DeleteTrailingMessages cid ts
                     \<in> set (issued st (handleReloadFrom_manual e cid msgs k st))
                  \<and> deleteTrailingMessages e cid ts = None))"
proof -
  let ?ev = "issued st (handleReloadFrom_manual e cid msgs k st)"
  have p1: "preceded is_local_write is_truncation ?ev"
    by (simp add: reload_manual_issued remote_steps_reload_def split: option.splits)
  have p2: "preceded is_truncation is_transport ?ev"
    by (simp add: reload_manual_issued remote_steps_reload_def split: option.splits)
  have p3: "list_ex is_transport ?ev
        \<longrightarrow> (\<exists>ts. DeleteTrailingMessages cid ts \<in> set ?ev
                  \<and> deleteTrailingMessages e cid ts = None)"
    by (auto simp: reload_manual_issued remote_steps_reload_def split: option.splits if_splits)
  show ?thesis
    by (intro conjI) (rule p1 p2 p3)+
qed

text \<open>
  The server-delegated edit handler issues no truncation at all: its local write comes
  before the \<^verbatim>\<open>regenerate\<close> call, and it too rolls nothing back.
\<close>

lemma edit_delegated_ordered:
  "preceded is_local_write is_transport
     (issued st (handleUpdateAndReloadMessage_delegated e cid k txt st))
   \<and> \<not> list_ex is_truncation (issued st (handleUpdateAndReloadMessage_delegated e cid k txt st))
   \<and> (\<forall>new. SetMessages new \<in> set (issued st (handleUpdateAndReloadMessage_delegated e cid k txt st))
        \<longrightarrow> messages (handleUpdateAndReloadMessage_delegated e cid k txt st) = new)"
proof (cases "cid = []")
  case True
  then show ?thesis
    by (simp add: handleUpdateAndReloadMessage_delegated_def emit_def issued_def)
next
  case False
  then show ?thesis
    by (auto simp: edit_delegated_run issued_def split: option.splits)
qed

subsection \<open>Structural errors\<close>

text \<open>
  Claim C3, as the code has it. Under the manual strategy a structural error aborts the run
  before any mutation: edit-and-regenerate with a target id that no message of the log has,
  and reload-from with a follower that is absent, or is the first message, or whose
  predecessor is not a user message, each leave the log unchanged, raise exactly one
  notification and issue no local write, truncation or transport call. Under the
  server-delegated strategy the handlers make no structural check: with a chat id present,
  edit-and-regenerate with an absent target and reload-from with any follower id leave the
  log unchanged by themselves, call \<^verbatim>\<open>regenerate\<close> exactly once with the given id, and raise
  a notification exactly when that call is rejected.
\<close>

theorem structural_errors_abort_manual_delegated_calls:
  "((\<forall>m \<in> set msgs. msg_id m \<noteq> k)
      \<longrightarrow> aborted st (handleUpdateAndReloadMessage_manual e cid msgs k txt st))
   \<and> ((\<forall>m \<in> set msgs. msg_id m \<noteq> k)
      \<longrightarrow> aborted st (handleReloadFrom_manual e cid msgs k st))
   \<and> (msgs = f # rest \<and> msg_id f = k
      \<longrightarrow> aborted st (handleReloadFrom_manual e cid msgs k st))
   \<and> (msgs = pre @ p # f # rest \<and> (\<forall>m \<in> set pre. msg_id m \<noteq> k) \<and> msg_id p \<noteq> k
        \<and> msg_id f = k \<and> role p \<noteq> ''user''
      \<longrightarrow> aborted st (handleReloadFrom_manual e cid msgs k st))
   \<and> (cid \<noteq> [] \<and> (\<forall>m \<in> set (messages st). msg_id m \<noteq> k)
      \<longrightarrow> messages (handleUpdateAndReloadMessage_delegated e cid k txt st) = messages st
          \<and> filter is_transport
                (issued st (handleUpdateAndReloadMessage_delegated e cid k txt st))
              = [Regenerate k]
          \<and> list_ex is_notification
                (issued st (handleUpdateAndReloadMessage_delegated e cid k txt st))
              = (regenerate e (messages st) k \<noteq> None))
   \<and> (cid \<noteq> []
      \<longrightarrow> messages (handleReloadFrom_delegated e cid k st) = messages st
          \<and> filter is_transport (issued st (handleReloadFrom_delegated e cid k st))
              = [Regenerate k]
          \<and> list_ex is_notification (issued st (handleReloadFrom_delegated e cid k st))
              = (regenerate e (messages st) k \<noteq> None))"
proof -
  have a: "(\<forall>m \<in> set msgs. msg_id m \<noteq> k)
      \<longrightarrow> aborted st (handleUpdateAndReloadMessage_manual e cid msgs k txt st)"
    by (simp add: edit_manual_absent_aborted)
  have b: "(\<forall>m \<in> set msgs. msg_id m \<noteq> k)
      \<longrightarrow> aborted st (handleReloadFrom_manual e cid msgs k st)"
  proof
    assume "\<forall>m \<in> set msgs. msg_id m \<noteq> k"
    then have "findIndex (\<lambda>m. msg_id m = k) msgs = - 1" by (simp add: findIndex_absent)
    then show "aborted st (handleReloadFrom_manual e cid msgs k st)"
      by (intro reload_manual_index_aborted) simp
  qed
  have c: "msgs = f # rest \<and> msg_id f = k
      \<longrightarrow> aborted st (handleReloadFrom_manual e cid msgs k st)"
  proof
    assume "msgs = f # rest \<and> msg_id f = k"
    then have "findIndex (\<lambda>m. msg_id m = k) msgs = 0" by simp
    then show "aborted st (handleReloadFrom_manual e cid msgs k st)"
      by (intro reload_manual_index_aborted) simp
  qed
  have d: "msgs = pre @ p # f # rest \<and> (\<forall>m \<in> set pre. msg_id m \<noteq> k) \<and> msg_id p \<noteq> k
        \<and> msg_id f = k \<and> role p \<noteq> ''user''
      \<longrightarrow> aborted st (handleReloadFrom_manual e cid msgs k st)"
  proof
    assume h: "msgs = pre @ p # f # rest \<and> (\<forall>m \<in> set pre. msg_id m \<noteq> k) \<and> msg_id p \<noteq> k
        \<and> msg_id f = k \<and> role p \<noteq> ''user''"
    then have "findIndex (\<lambda>m. msg_id m = k) ((pre @ [p]) @ f # rest) = int (length (pre @ [p]))"
      by (intro findIndex_first) auto
    with h have i: "findIndex (\<lambda>m. msg_id m = k) msgs = int (length pre) + 1" by simp
    have "msgs ! nat (findIndex (\<lambda>m. msg_id m = k) msgs - 1) = p"
      unfolding i using h by simp
    with h show "aborted st (handleReloadFrom_manual e cid msgs k st)"
      by (intro reload_manual_index_aborted) simp
  qed
  have e1: "cid \<noteq> [] \<and> (\<forall>m \<in> set (messages st). msg_id m \<noteq> k)
      \<longrightarrow> messages (handleUpdateAndReloadMessage_delegated e cid k txt st) = messages st
          \<and> filter is_transport
                (issued st (handleUpdateAndReloadMessage_delegated e cid k txt st))
              = [Regenerate k]
          \<and> list_ex is_notification
                (issued st (handleUpdateAndReloadMessage_delegated e cid k txt st))
              = (regenerate e (messages st) k \<noteq> None)"
    by (auto simp: edit_delegated_run editUpdater_delegated_absent issued_def
          split: option.splits)
  have e2: "cid \<noteq> []
      \<longrightarrow> messages (handleReloadFrom_delegated e cid k st) = messages st
          \<and> filter is_transport (issued st (handleReloadFrom_delegated e cid k st))
              = [Regenerate k]
          \<and> list_ex is_notification (issued st (handleReloadFrom_delegated e cid k st))
              = (regenerate e (messages st) k \<noteq> None)"
    by (auto simp: reload_delegated_run issued_def split: option.splits)
  show ?thesis
    by (intro conjI) (rule a b c d e1 e2)+
qed

theorem structural_errors_abort_manual_delegated_calls_witness:
  "msg_id (stamped ''u1'' ''user'' 10) \<noteq> ''u2''
   \<and> msg_id (stamped ''a1'' ''assistant'' 20) \<noteq> ''u2''
   \<and> msg_id (stamped ''u2'' ''user'' 30) = ''u2''
   \<and> role (stamped ''a1'' ''assistant'' 20) \<noteq> ''user''
   \<and> aborted \<lparr>messages = example_log, trace = []\<rparr>
        (handleReloadFrom_manual quiet_env ''chat'' example_log ''u2''
           \<lparr>messages = example_log, trace = []\<rparr>)
   \<and> trace (handleReloadFrom_manual quiet_env ''chat'' example_log ''u2''
              \<lparr>messages = example_log, trace = []\<rparr>)
       = [ToastError ''Cannot reload: The message to resend must be a user message.'',
          ConsoleError ''handleReloadFrom: Preceding message (id: a1) is not a user message.'']"
  using structural_errors_abort_manual_delegated_calls
          [of example_log "''u2''" "\<lparr>messages = example_log, trace = []\<rparr>" quiet_env "''chat''"
              "''X''" "stamped ''u2'' ''user'' 30" "[stamped ''a2'' ''assistant'' 40]"
              "[stamped ''u1'' ''user'' 10]" "stamped ''a1'' ''assistant'' 20"]
  by (simp add: example_log_def stamped_def mk_message_def handleReloadFrom_manual_def
        emit_def Let_def)

text \<open>
  The claim as first stated fails for the server-delegated strategy: reload-from on the
  first message of the log calls \<^verbatim>\<open>regenerate\<close> and, when that resolves, raises no
  notification.
\<close>

theorem structural_errors_delegated_counterexample:
  "handleReloadFrom_delegated quiet_env ''chat'' ''u1'' \<lparr>messages = example_log, trace = []\<rparr>
     = \<lparr>messages = example_log, trace = [Regenerate ''u1'']\<rparr>
   \<and> msg_id (hd example_log) = ''u1''"
  by (simp add: handleReloadFrom_delegated_def quiet_env_def emit_def example_log_def
        stamped_def mk_message_def)

subsection \<open>In-place edit under the server-delegated strategy\<close>

text \<open>
  Claim C6. With a chat id present, the delegated edit handler replaces the target (the
  first message with the edited id) in place: the messages before and after it are
  unchanged and stay where they are, and the target keeps every field but \<^verbatim>\<open>parts\<close>, which
  becomes the single text part with the new text. In every run the log keeps its length
  and its sequence of ids, and a log without the target is left as it is.
\<close>

theorem edit_delegated_in_place:
  "(cid \<noteq> [] \<and> messages st = pre @ t # post \<and> (\<forall>m \<in> set pre. msg_id m \<noteq> k) \<and> msg_id t = k
      \<longrightarrow> messages (handleUpdateAndReloadMessage_delegated e cid k txt st) =
            pre @ t\<lparr>parts := Some [\<lparr>part_type = ''text'', part_text = txt\<rparr>]\<rparr> # post)
   \<and> ((\<forall>m \<in> set (messages st). msg_id m \<noteq> k)
      \<longrightarrow> messages (handleUpdateAndReloadMessage_delegated e cid k txt st) = messages st)
   \<and> length (messages (handleUpdateAndReloadMessage_delegated e cid k txt st))
       = length (messages st)
   \<and> map msg_id (messages (handleUpdateAndReloadMessage_delegated e cid k txt st))
       = map msg_id (messages st)"
proof -
  let ?st' = "handleUpdateAndReloadMessage_delegated e cid k txt st"
  have msgs: "messages ?st' = (if cid = [] then messages st
                               else editUpdater_delegated k txt (messages st))"
    by (simp add: edit_delegated_run) (simp add: handleUpdateAndReloadMessage_delegated_def emit_def)
  have a: "cid \<noteq> [] \<and> messages st = pre @ t # post \<and> (\<forall>m \<in> set pre. msg_id m \<noteq> k)
             \<and> msg_id t = k
      \<longrightarrow> messages ?st' = pre @ t\<lparr>parts := Some [\<lparr>part_type = ''text'', part_text = txt\<rparr>]\<rparr> # post"
    by (simp add: msgs editUpdater_delegated_present)
  have b: "(\<forall>m \<in> set (messages st). msg_id m \<noteq> k) \<longrightarrow> messages ?st' = messages st"
    by (simp add: msgs editUpdater_delegated_absent)
  have c: "length (messages ?st') = length (messages st)"
    by (simp add: msgs editUpdater_delegated_def Let_def)
  have d: "map msg_id (messages ?st') = map msg_id (messages st)"
  proof (cases "findIndex (\<lambda>m. msg_id m = k) (messages st) = - 1")
    case True
    then show ?thesis by (simp add: msgs editUpdater_delegated_def)
  next
    case False
    let ?i = "nat (findIndex (\<lambda>m. msg_id m = k) (messages st))"
    have "map msg_id ((messages st)[?i := (messages st ! ?i)\<lparr>parts := Some [\<lparr>part_type = ''text'', part_text = txt\<rparr>]\<rparr>])
            = (map msg_id (messages st))[?i := msg_id (messages st ! ?i)]"
      by (simp add: map_update)
    also have "\<dots> = map msg_id (messages st)"
      by (metis list_update_id map_update)
    finally show ?thesis using False by (simp add: msgs editUpdater_delegated_def Let_def)
  qed
  show ?thesis
    by (intro conjI) (rule a b c d)+
qed

theorem edit_delegated_in_place_witness:
  "''chat'' \<noteq> []
   \<and> msg_id (stamped ''u1'' ''user'' 10) \<noteq> ''u2''
   \<and> msg_id (stamped ''a1'' ''assistant'' 20) \<noteq> ''u2''
   \<and> msg_id (stamped ''u2'' ''user'' 30) = ''u2''
   \<and> messages (handleUpdateAndReloadMessage_delegated quiet_env ''chat'' ''u2'' ''X''
                 \<lparr>messages = example_log, trace = []\<rparr>)
       = [stamped ''u1'' ''user'' 10, stamped ''a1'' ''assistant'' 20,
          (stamped ''u2'' ''user'' 30)\<lparr>parts := Some [\<lparr>part_type = ''text'', part_text = ''X''\<rparr>]\<rparr>,
          stamped ''a2'' ''assistant'' 40]"
  using edit_delegated_in_place
          [of "''chat''" "\<lparr>messages = example_log, trace = []\<rparr>"
              "[stamped ''u1'' ''user'' 10, stamped ''a1'' ''assistant'' 20]"
              "stamped ''u2'' ''user'' 30" "[stamped ''a2'' ''assistant'' 40]" "''u2''"
              quiet_env "''X''"]
  by (simp add: example_log_def stamped_def mk_message_def)

end
